theory Spec2Isabelle
  imports Complex_Main
begin

section \<open>File filter: priority-based categorisation of repository paths\<close>

text \<open>
  The three priority levels of the backend (\<^verbatim>\<open>type PriorityLevel = 1 | 2 | 3\<close>).
  \<^verbatim>\<open>getFilePriority\<close> returns \<^verbatim>\<open>PriorityLevel | null\<close>, modelled as an option:
  \<open>None\<close> is the ignored file.
\<close>

datatype PriorityLevel = P1 | P2 | P3

fun priorityNumber :: "PriorityLevel \<Rightarrow> nat" where
  "priorityNumber P1 = 1"
| "priorityNumber P2 = 2"
| "priorityNumber P3 = 3"

definition IGNORE_PATTERNS :: "string list" where
  "IGNORE_PATTERNS =
    [''node_modules/**'', ''vendor/**'', ''__pycache__/**'', ''.venv/**'', ''venv/**'',
     ''dist/**'', ''build/**'', ''out/**'', ''.next/**'', ''.nuxt/**'', ''.output/**'',
     ''target/**'',
     ''.git/**'', ''.github/**'', ''.gitlab/**'', ''.svn/**'',
     ''coverage/**'', ''test-results/**'', ''.nyc_output/**'',
     ''.idea/**'', ''.vscode/**'', ''*.swp'', ''*.swo'', ''.DS_Store'',
     ''package-lock.json'', ''yarn.lock'', ''pnpm-lock.yaml'', ''Gemfile.lock'',
     ''poetry.lock'', ''composer.lock'',
     ''*.min.js'', ''*.min.css'', ''*.bundle.js'',
     ''*.png'', ''*.jpg'', ''*.jpeg'', ''*.gif'', ''*.ico'', ''*.svg'', ''*.webp'',
     ''*.mp4'', ''*.mp3'', ''*.wav'', ''*.pdf'', ''*.zip'', ''*.tar'', ''*.gz'',
     ''*.woff'', ''*.woff2'', ''*.ttf'', ''*.eot'',
     ''*.map'', ''*.d.ts'', ''generated/**'', ''auto-generated/**'']"

definition PRIORITY_1_PATTERNS :: "string list" where
  "PRIORITY_1_PATTERNS =
    [''.env'', ''.env.local'', ''.env.production'', ''.env.development'', ''.env.test'',
     ''**/.env'',
     ''**/auth/**'', ''**/authentication/**'', ''**/authorization/**'', ''**/security/**'',
     ''**/crypto/**'', ''**/secrets/**'',
     ''**/config/**'', ''**/configs/**'', ''**/configuration/**'', ''*.config.js'',
     ''*.config.ts'',
     ''**/*secret*'', ''**/*password*'', ''**/*token*'', ''**/*key*'', ''**/*credential*'',
     ''**/*private*'',
     ''**/middleware/**'', ''**/middlewares/**'',
     ''**/database/**'', ''**/db/**'', ''**/repositories/**'', ''**/*.sql'', ''**/queries/**'',
     ''**/migrations/**'',
     ''**/*cors*'', ''**/access-control/**'']"

definition PRIORITY_2_PATTERNS :: "string list" where
  "PRIORITY_2_PATTERNS =
    [''**/api/**'', ''**/routes/**'', ''**/router/**'', ''**/endpoints/**'',
     ''**/controllers/**'', ''**/services/**'', ''**/handlers/**'', ''**/use-cases/**'',
     ''**/usecases/**'',
     ''**/models/**'', ''**/entities/**'', ''**/schemas/**'',
     ''index.js'', ''index.ts'', ''main.js'', ''main.ts'', ''app.js'', ''app.ts'',
     ''server.js'', ''server.ts'', ''main.py'', ''app.py'', ''__main__.py'',
     ''src/index.*'', ''src/main.*'', ''src/app.*'', ''lib/**'']"

definition PRIORITY_3_PATTERNS :: "string list" where
  "PRIORITY_3_PATTERNS =
    [''**/utils/**'', ''**/utilities/**'', ''**/helpers/**'', ''**/common/**'',
     ''**/shared/**'', ''**/lib/**'',
     ''**/components/**'', ''**/views/**'', ''**/pages/**'', ''**/layouts/**'',
     ''**/templates/**'',
     ''**/*.test.*'', ''**/*.spec.*'', ''**/test/**'', ''**/tests/**'', ''**/__tests__/**'',
     ''*.md'', ''**/docs/**'',
     ''**/*.css'', ''**/*.scss'', ''**/*.less'',
     ''**/*.js'', ''**/*.ts'', ''**/*.jsx'', ''**/*.tsx'', ''**/*.py'', ''**/*.java'',
     ''**/*.go'', ''**/*.rb'', ''**/*.php'', ''**/*.rs'']"

text \<open>
  \<^verbatim>\<open>minimatch(filePath, pattern, { dot: true, matchBase: true })\<close> belongs to the
  npm package minimatch, not to this repository. The model takes the matcher as the
  parameter \<open>mm\<close>: \<open>mm filePath pattern\<close> tells whether the path matches the glob.
\<close>

type_synonym matcher = "string \<Rightarrow> string \<Rightarrow> bool"

text \<open>\<^verbatim>\<open>patterns.some(pattern => minimatch(...))\<close>: a left-to-right scan that stops at the
  first pattern that matches.\<close>

fun matchesAnyPattern :: "matcher \<Rightarrow> string \<Rightarrow> string list \<Rightarrow> bool" where
  "matchesAnyPattern mm filePath [] = False"
| "matchesAnyPattern mm filePath (pattern # patterns) =
     (if mm filePath pattern then True else matchesAnyPattern mm filePath patterns)"

definition shouldIgnoreFile :: "matcher \<Rightarrow> string \<Rightarrow> bool" where
  "shouldIgnoreFile mm filePath = matchesAnyPattern mm filePath IGNORE_PATTERNS"

definition getFilePriority :: "matcher \<Rightarrow> string \<Rightarrow> PriorityLevel option" where
  "getFilePriority mm filePath =
     (if shouldIgnoreFile mm filePath then None
      else if matchesAnyPattern mm filePath PRIORITY_1_PATTERNS then Some P1
      else if matchesAnyPattern mm filePath PRIORITY_2_PATTERNS then Some P2
      else if matchesAnyPattern mm filePath PRIORITY_3_PATTERNS then Some P3
      else None)"

definition filterFilesByPriority :: "matcher \<Rightarrow> string list \<Rightarrow> PriorityLevel \<Rightarrow> string list" where
  "filterFilesByPriority mm files priority =
     filter (\<lambda>file. getFilePriority mm file = Some priority) files"

fun getPriorityName :: "PriorityLevel \<Rightarrow> string" where
  "getPriorityName P1 = ''Security & Secrets''"
| "getPriorityName P2 = ''Core Business Logic''"
| "getPriorityName P3 = ''Supporting Code''"

text \<open>
  A small matcher for the worked examples below. It lists, for six sample paths, the
  patterns of the four tables that the path matches as a glob with \<^verbatim>\<open>matchBase\<close>
  (\<^verbatim>\<open>*.png\<close> matches the basename \<^verbatim>\<open>logo.png\<close>, \<^verbatim>\<open>**/auth/**\<close> matches a path with a
  directory \<^verbatim>\<open>auth\<close>); every other pair does not match.
\<close>

definition sampleMatches :: "(string \<times> string) list" where
  "sampleMatches =
    [(''assets/logo.png'', ''*.png''),
     (''node_modules/auth/x.js'', ''node_modules/**''),
     (''node_modules/auth/x.js'', ''**/auth/**''),
     (''node_modules/auth/x.js'', ''**/*.js''),
     (''src/auth/login.ts'', ''**/auth/**''),
     (''src/auth/login.ts'', ''**/*.ts''),
     (''src/services/orders.ts'', ''**/services/**''),
     (''src/services/orders.ts'', ''**/*.ts''),
     (''README.md'', ''*.md'')]"

definition sampleMatcher :: matcher where
  "sampleMatcher filePath pattern = ((filePath, pattern) \<in> set sampleMatches)"

section \<open>JavaScript strings and errors\<close>

text \<open>
  Strings are lists of characters; a character stands for one UTF-16 code unit below 256,
  so \<open>length\<close> is JavaScript's \<^verbatim>\<open>.length\<close> on such text. A thrown value is an object
  with an optional numeric \<^verbatim>\<open>status\<close> (Octokit's request errors carry one, a plain
  \<^verbatim>\<open>new Error(msg)\<close> does not) and a \<^verbatim>\<open>message\<close>. Every function that can throw
  returns a sum: \<open>Inl\<close> is the thrown error.
\<close>

datatype JsError = JsError (errStatus: "nat option") (errMessage: string)

definition newError :: "string \<Rightarrow> JsError" where
  "newError msg = JsError None msg"

definition startsWith :: "string \<Rightarrow> string \<Rightarrow> bool" where
  "startsWith s p = (take (length p) s = p)"

definition endsWith :: "string \<Rightarrow> string \<Rightarrow> bool" where
  "endsWith s p = (length p \<le> length s \<and> drop (length s - length p) s = p)"

text \<open>\<^verbatim>\<open>s.includes(sub)\<close>: \<open>sub\<close> occurs somewhere in \<open>s\<close>.\<close>

fun includesStr :: "string \<Rightarrow> string \<Rightarrow> bool" where
  "includesStr [] sub = (sub = [])"
| "includesStr (c # cs) sub = (startsWith (c # cs) sub \<or> includesStr cs sub)"

text \<open>Decimal rendering of a non-negative integer inside a template literal.\<close>

fun showNat :: "nat \<Rightarrow> string" where
  "showNat n =
     (if n < 10 then [''0123456789'' ! n]
      else showNat (n div 10) @ [''0123456789'' ! (n mod 10)])"

declare showNat.simps [simp del]

text \<open>Truthiness of an optional string: \<^verbatim>\<open>undefined\<close> and the empty string are falsy.\<close>

fun truthyStr :: "string option \<Rightarrow> bool" where
  "truthyStr None = False"
| "truthyStr (Some s) = (s \<noteq> [])"

text \<open>
  \<^verbatim>\<open>xs.slice(0, n)\<close> for an integer \<open>n\<close>: a negative end counts from the end of the
  array.
\<close>

definition sliceTo :: "'a list \<Rightarrow> int \<Rightarrow> 'a list" where
  "sliceTo xs n = (if 0 \<le> n then take (nat n) xs else take (nat (int (length xs) + n)) xs)"

section \<open>GitHub service: repository fetching and file management\<close>

subsection \<open>Parsing a repository URL\<close>

text \<open>
  \<^verbatim>\<open>url.match(/github\.com\/([^\/]+)\/([^\/]+)/)\<close>. \<open>matchHere\<close> tries the pattern at
  the start of its argument: the literal, a longest non-empty run without a slash, a
  slash, and a longest non-empty run without a slash. \<open>matchGitHubUrl\<close> takes the
  leftmost position where it succeeds.
\<close>

definition notSlash :: "char \<Rightarrow> bool" where
  "notSlash c = (c \<noteq> CHR ''/'')"

definition matchHere :: "string \<Rightarrow> (string \<times> string) option" where
  "matchHere s =
     (if startsWith s ''github.com/'' then
        (let rest = drop 11 s;
             g1 = takeWhile notSlash rest;
             rest' = dropWhile notSlash rest
         in if g1 \<noteq> [] \<and> rest' \<noteq> [] then
              (let g2 = takeWhile notSlash (tl rest')
               in if g2 \<noteq> [] then Some (g1, g2) else None)
            else None)
      else None)"

fun matchGitHubUrl :: "string \<Rightarrow> (string \<times> string) option" where
  "matchGitHubUrl [] = matchHere []"
| "matchGitHubUrl (c # cs) =
     (case matchHere (c # cs) of Some m \<Rightarrow> Some m | None \<Rightarrow> matchGitHubUrl cs)"

text \<open>\<^verbatim>\<open>s.split(sep)[0]\<close> for a one-character separator.\<close>

definition splitFirst :: "char \<Rightarrow> string \<Rightarrow> string" where
  "splitFirst sep s = takeWhile (\<lambda>c. c \<noteq> sep) s"

definition parseGitHubUrl :: "string \<Rightarrow> (string \<times> string) option" where
  "parseGitHubUrl url =
     (case matchGitHubUrl url of
        None \<Rightarrow> None
      | Some (owner, repo0) \<Rightarrow>
          (let repo1 = (if endsWith repo0 ''.git'' then take (length repo0 - 4) repo0 else repo0);
               repo2 = splitFirst (CHR ''#'') (splitFirst (CHR ''?'') (splitFirst (CHR ''/'') repo1))
           in Some (owner, repo2)))"

subsection \<open>The outside world\<close>

text \<open>
  What the hosting provider answers. \<open>RepoData\<close> is the part of the \<^verbatim>\<open>repos.get\<close>
  answer that \<^verbatim>\<open>validateRepo\<close> reads, \<open>TreeItem\<close> an entry of the recursive tree
  listing, \<open>ContentData\<close> the answer of \<^verbatim>\<open>repos.getContent\<close>: an array for a
  directory, otherwise an object with a type, perhaps a base64 \<^verbatim>\<open>content\<close>, and a size.
\<close>

record RepoData =
  full_name :: string
  api_description :: "string option"
  stargazers_count :: nat
  api_language :: "string option"
  updated_at :: string
  default_branch :: string
  private_repo :: bool

record RepoInfo =
  owner :: string
  name :: string
  fullName :: string
  description :: "string option"
  stars :: nat
  language :: "string option"
  lastUpdate :: string
  defaultBranch :: string
  isPrivate :: bool

record TreeItem =
  item_type :: string
  item_path :: "string option"
  item_sha :: "string option"
  item_size :: "nat option"

record FileEntry =
  entryPath :: string
  entryType :: string
  entrySize :: nat
  sha :: string

record FileContent =
  path :: string
  content :: string
  contentSize :: nat

datatype ContentData =
    ContentArray
  | ContentObject (dataType: string) (dataContent: "string option") (dataSize: nat)

text \<open>
  Network requests, as they are logged in the order of issue. The first component is the
  credential the client was built with.
\<close>

datatype Request =
    ReposGet "string option" string string
  | GitGetTree "string option" string string string
  | ReposGetContent "string option" string string string
  | ChatCompletions string string string

text \<open>
  Answers of the AI service to the streaming request: the call itself fails, or it
  answers with a status, an error text and perhaps a body. The body is a sequence of
  reads, then the end of the stream or a read error. For each read the model is given the
  \<^verbatim>\<open>choices[0].delta.content\<close> values of its \<^verbatim>\<open>data:\<close> lines, in order (the empty string
  where a line has none or does not parse).
\<close>

datatype StreamBody = StreamBody (reads: "string list list") (readError: "string option")

datatype ChatResponse =
    FetchFailed string
  | HttpResponse (httpStatus: nat) (errorText: string) (httpBody: "StreamBody option")

section \<open>Analysis issues as parsed from the model's JSON\<close>

datatype json =
    JNull
  | JBool bool
  | JNum rat
  | JStr string
  | JArr "json list"
  | JObj "(string \<times> json) list"

text \<open>
  The environment of a run. \<^verbatim>\<open>minimatch\<close>, \<^verbatim>\<open>JSON.parse\<close> (\<open>None\<close> when it throws) and
  the base64 decoder are library functions; \<^verbatim>\<open>MAX_FILES_PER_PRIORITY\<close> and
  \<^verbatim>\<open>GITHUB_TOKEN\<close> come from the process environment; \<open>PROMPT\<close> gives the three long
  prompt texts of the AI service. The four answer functions are the remote services: an
  answer may depend on every request issued so far. \<open>elapsed\<close> is the time in
  milliseconds that the last request of a log took.
\<close>

record Env =
  minimatch :: matcher
  JSON_parse :: "string \<Rightarrow> json option"
  base64_decode :: "string \<Rightarrow> string"
  MAX_FILES_PER_PRIORITY :: int
  GITHUB_TOKEN :: "string option"
  PROMPT :: "PriorityLevel \<Rightarrow> string"
  repos_get :: "Request list \<Rightarrow> string option \<Rightarrow> string \<Rightarrow> string \<Rightarrow> JsError + RepoData"
  git_getTree :: "Request list \<Rightarrow> string option \<Rightarrow> string \<Rightarrow> string \<Rightarrow> string \<Rightarrow> JsError + TreeItem list"
  repos_getContent :: "Request list \<Rightarrow> string option \<Rightarrow> string \<Rightarrow> string \<Rightarrow> string \<Rightarrow> JsError + ContentData"
  chat_completions :: "Request list \<Rightarrow> string \<Rightarrow> string \<Rightarrow> string \<Rightarrow> ChatResponse"
  elapsed :: "Request list \<Rightarrow> nat"

text \<open>
  The mutable state of the process: the clock read by \<^verbatim>\<open>Date.now()\<close>, the module-level
  \<^verbatim>\<open>fileTreeCache\<close> (key to data and timestamp) and the log of network requests.
\<close>

record World =
  clock :: int
  fileTreeCache :: "string \<rightharpoonup> (FileEntry list \<times> int)"
  netlog :: "Request list"

definition perform :: "Env \<Rightarrow> Request \<Rightarrow> World \<Rightarrow> World" where
  "perform env req w =
     w\<lparr>netlog := netlog w @ [req],
       clock := clock w + int (elapsed env (netlog w @ [req]))\<rparr>"

definition createOctokit :: "Env \<Rightarrow> string option \<Rightarrow> string option" where
  "createOctokit env token = (if truthyStr token then token else GITHUB_TOKEN env)"

subsection \<open>validateRepo\<close>

definition validateRepo ::
  "Env \<Rightarrow> string \<Rightarrow> string \<Rightarrow> string option \<Rightarrow> World \<Rightarrow> (JsError + RepoInfo) \<times> World" where
  "validateRepo env ownr repo token w =
     (let octokit = createOctokit env token;
          w' = perform env (ReposGet octokit ownr repo) w
      in case repos_get env (netlog w) octokit ownr repo of
           Inr data \<Rightarrow>
             (Inr \<lparr>owner = ownr, name = repo, fullName = full_name data,
                   description = api_description data, stars = stargazers_count data,
                   language = api_language data, lastUpdate = updated_at data,
                   defaultBranch = default_branch data, isPrivate = private_repo data\<rparr>, w')
         | Inl error \<Rightarrow>
             (if errStatus error = Some 404 then
                Inl (newError (''Repository not found: '' @ ownr @ ''/'' @ repo))
              else if errStatus error = Some 403 then
                Inl (newError ''GitHub API rate limit exceeded. Try again later or add a GITHUB_TOKEN.'')
              else Inl (newError (''Failed to fetch repository: '' @ errMessage error)), w'))"

subsection \<open>getFileTree and its cache\<close>

definition CACHE_TTL :: int where
  "CACHE_TTL = 5 * 60 * 1000"

definition cacheKey :: "string \<Rightarrow> string \<Rightarrow> string option \<Rightarrow> string" where
  "cacheKey ownr repo branch =
     ownr @ ''/'' @ repo @ ''/'' @ (if truthyStr branch then the branch else ''default'')"

definition isBlob :: "TreeItem \<Rightarrow> bool" where
  "isBlob item = (item_type item = ''blob'' \<and> truthyStr (item_path item) \<and> truthyStr (item_sha item))"

definition toFileEntry :: "TreeItem \<Rightarrow> FileEntry" where
  "toFileEntry item =
     \<lparr>entryPath = the (item_path item), entryType = ''file'',
      entrySize = (case item_size item of None \<Rightarrow> 0 | Some n \<Rightarrow> n),
      sha = the (item_sha item)\<rparr>"

definition fileTreeError :: "string \<Rightarrow> string \<Rightarrow> JsError \<Rightarrow> JsError" where
  "fileTreeError ownr repo error =
     (if errStatus error = Some 404 then
        newError (''Repository or branch not found: '' @ ownr @ ''/'' @ repo)
      else if errStatus error = Some 409 then newError ''Repository is empty''
      else newError (''Failed to get file tree: '' @ errMessage error))"

text \<open>The \<^verbatim>\<open>try\<close> block of \<^verbatim>\<open>getFileTree\<close>, entered when the cache has no fresh entry.\<close>

definition fetchFileTree ::
  "Env \<Rightarrow> string \<Rightarrow> string \<Rightarrow> string option \<Rightarrow> string option \<Rightarrow> World
     \<Rightarrow> (JsError + FileEntry list) \<times> World" where
  "fetchFileTree env ownr repo branch token w =
     (let octokit = createOctokit env token;
          (targetBranch, w1) =
            (if truthyStr branch then (Inr (the branch), w)
             else case validateRepo env ownr repo token w of
                    (Inl error, w') \<Rightarrow> (Inl error, w')
                  | (Inr info, w') \<Rightarrow> (Inr (defaultBranch info), w'))
      in case targetBranch of
           Inl error \<Rightarrow> (Inl (fileTreeError ownr repo error), w1)
         | Inr tree_sha \<Rightarrow>
             (let w2 = perform env (GitGetTree octokit ownr repo tree_sha) w1
              in case git_getTree env (netlog w1) octokit ownr repo tree_sha of
                   Inl error \<Rightarrow> (Inl (fileTreeError ownr repo error), w2)
                 | Inr tree \<Rightarrow>
                     (let files = map toFileEntry (filter isBlob tree)
                      in (Inr files,
                          w2\<lparr>fileTreeCache :=
                               (fileTreeCache w2)(cacheKey ownr repo branch \<mapsto> (files, clock w2))\<rparr>))))"

definition getFileTree ::
  "Env \<Rightarrow> string \<Rightarrow> string \<Rightarrow> string option \<Rightarrow> string option \<Rightarrow> World
     \<Rightarrow> (JsError + FileEntry list) \<times> World" where
  "getFileTree env ownr repo branch token w =
     (case fileTreeCache w (cacheKey ownr repo branch) of
        Some (data, timestamp) \<Rightarrow>
          if clock w - timestamp < CACHE_TTL then (Inr data, w)
          else fetchFileTree env ownr repo branch token w
      | None \<Rightarrow> fetchFileTree env ownr repo branch token w)"

subsection \<open>getFileContent\<close>

text \<open>
  The outcome of one content request, given the request log at the moment of the call.
  A directory listing and an object that is not a file with content throw inside the
  \<^verbatim>\<open>try\<close> block, so the \<^verbatim>\<open>catch\<close> rewraps them like a request error without a status.
\<close>

definition fileContentResult ::
  "Env \<Rightarrow> Request list \<Rightarrow> string option \<Rightarrow> string \<Rightarrow> string \<Rightarrow> string \<Rightarrow> JsError + FileContent" where
  "fileContentResult env hist octokit ownr repo pth =
     (let attempt =
            (case repos_getContent env hist octokit ownr repo pth of
               Inl error \<Rightarrow> Inl error
             | Inr ContentArray \<Rightarrow> Inl (newError (''Path is a directory: '' @ pth))
             | Inr (ContentObject ty c sz) \<Rightarrow>
                 (if ty \<noteq> ''file'' \<or> c = None then Inl (newError (''Not a file: '' @ pth))
                  else Inr \<lparr>path = pth, content = base64_decode env (the c), contentSize = sz\<rparr>))
      in case attempt of
           Inr fc \<Rightarrow> Inr fc
         | Inl error \<Rightarrow>
             (if errStatus error = Some 404 then Inl (newError (''File not found: '' @ pth))
              else Inl (newError (''Failed to get file content: '' @ errMessage error))))"

definition getFileContent ::
  "Env \<Rightarrow> string \<Rightarrow> string \<Rightarrow> string \<Rightarrow> string option \<Rightarrow> World \<Rightarrow> (JsError + FileContent) \<times> World" where
  "getFileContent env ownr repo pth token w =
     (let octokit = createOctokit env token
      in (fileContentResult env (netlog w) octokit ownr repo pth,
          perform env (ReposGetContent octokit ownr repo pth) w))"

subsection \<open>getFilesContents: parallel batches\<close>

text \<open>
  A batch entry is \<^verbatim>\<open>{ success: true, content, path }\<close> or
  \<^verbatim>\<open>{ success: false, path, error }\<close>. The requests of a batch run concurrently; the
  model issues them in the order of the batch, which is the order of \<^verbatim>\<open>Promise.all\<close>'s
  results. The progress callback acts on a state of the caller's choice (the HTTP
  response, for the orchestrator).
\<close>

datatype BatchResult =
    BatchSuccess FileContent string
  | BatchFailure string string

fun resultPath :: "BatchResult \<Rightarrow> string" where
  "resultPath (BatchSuccess c p) = p"
| "resultPath (BatchFailure p e) = p"

type_synonym 'r progress = "nat \<Rightarrow> nat \<Rightarrow> string \<Rightarrow> 'r \<Rightarrow> 'r"

definition BATCH_SIZE :: nat where
  "BATCH_SIZE = 5"

fun fetchBatch ::
  "Env \<Rightarrow> string \<Rightarrow> string \<Rightarrow> string option \<Rightarrow> string list \<Rightarrow> World \<Rightarrow> BatchResult list \<times> World" where
  "fetchBatch env ownr repo token [] w = ([], w)"
| "fetchBatch env ownr repo token (p # ps) w =
     (case getFileContent env ownr repo p token w of
        (outcome, w1) \<Rightarrow>
          (let result = (case outcome of
                           Inr c \<Rightarrow> BatchSuccess c p
                         | Inl error \<Rightarrow> BatchFailure p (errMessage error))
           in case fetchBatch env ownr repo token ps w1 of
                (results, w2) \<Rightarrow> (result # results, w2)))"

text \<open>The loop over a batch's results: count, keep the content of a success, report.\<close>

fun processResults ::
  "'r progress option \<Rightarrow> nat \<Rightarrow> BatchResult list \<Rightarrow> nat \<times> FileContent list \<times> 'r
     \<Rightarrow> nat \<times> FileContent list \<times> 'r" where
  "processResults onProgress totalCount [] st = st"
| "processResults onProgress totalCount (result # results) (processedCount, contents, r) =
     (let processedCount' = processedCount + 1;
          contents' = (case result of
                         BatchSuccess c p \<Rightarrow> contents @ [c]
                       | BatchFailure p e \<Rightarrow> contents);
          r' = (case onProgress of
                  Some report \<Rightarrow> report processedCount' totalCount (resultPath result) r
                | None \<Rightarrow> r)
      in processResults onProgress totalCount results (processedCount', contents', r'))"

function batchLoop ::
  "Env \<Rightarrow> string \<Rightarrow> string \<Rightarrow> string option \<Rightarrow> 'r progress option \<Rightarrow> string list \<Rightarrow> nat
     \<Rightarrow> nat \<times> FileContent list \<times> 'r \<Rightarrow> World \<Rightarrow> FileContent list \<times> 'r \<times> World" where
  "batchLoop env ownr repo token onProgress filesToFetch i st w =
     (if i < length filesToFetch then
        (let batch = take BATCH_SIZE (drop i filesToFetch)
         in case fetchBatch env ownr repo token batch w of
              (batchResults, w1) \<Rightarrow>
                (let st1 = processResults onProgress (length filesToFetch) batchResults st;
                     w2 = (if i + BATCH_SIZE < length filesToFetch
                           then w1\<lparr>clock := clock w1 + 200\<rparr> else w1)
                 in batchLoop env ownr repo token onProgress filesToFetch (i + BATCH_SIZE) st1 w2))
      else (fst (snd st), snd (snd st), w))"
  by pat_completeness auto
termination
  by (relation "measure (\<lambda>(env, ownr, repo, token, onProgress, filesToFetch, i, st, w).
                  length filesToFetch - i)")
     (auto simp: BATCH_SIZE_def)

declare batchLoop.simps [simp del]

definition getFilesContents ::
  "Env \<Rightarrow> string \<Rightarrow> string \<Rightarrow> string list \<Rightarrow> int \<Rightarrow> 'r progress option \<Rightarrow> string option
     \<Rightarrow> 'r \<Rightarrow> World \<Rightarrow> FileContent list \<times> 'r \<times> World" where
  "getFilesContents env ownr repo paths maxFiles onProgress token r w =
     (let filesToFetch = sliceTo paths maxFiles
      in batchLoop env ownr repo token onProgress filesToFetch 0 (0, [], r) w)"

subsection \<open>getFilesForPriority\<close>

definition getFilesForPriority ::
  "Env \<Rightarrow> string \<Rightarrow> string \<Rightarrow> PriorityLevel \<Rightarrow> int \<Rightarrow> 'r progress option \<Rightarrow> string option
     \<Rightarrow> 'r \<Rightarrow> World \<Rightarrow> (JsError + FileContent list \<times> nat) \<times> 'r \<times> World" where
  "getFilesForPriority env ownr repo priority maxFiles onProgress token r w =
     (case getFileTree env ownr repo None token w of
        (Inl error, w1) \<Rightarrow> (Inl error, r, w1)
      | (Inr allFiles, w1) \<Rightarrow>
          (let allPaths = map entryPath allFiles;
               priorityFiles = filterFilesByPriority (minimatch env) allPaths priority
           in case getFilesContents env ownr repo priorityFiles maxFiles onProgress token r w1 of
                (files, r', w2) \<Rightarrow> (Inr (files, length priorityFiles), r', w2)))"

section \<open>Token counter: token and cost estimates\<close>

subsection \<open>JavaScript numbers\<close>

text \<open>
  A JavaScript number is an IEEE 754 binary64 value. A finite one is modelled by its
  value, a rational number, and every arithmetic operation is the exact operation followed
  by \<open>round64\<close>: rounding to the nearest value with a 53-bit significand, ties to the
  even significand, with the fixed exponent \<open>-1074\<close> in the subnormal range. Results
  beyond the largest finite double (overflow) are not modelled.
\<close>

function ilog2 :: "int \<Rightarrow> int" where
  "ilog2 n = (if n < 2 then 0 else 1 + ilog2 (n div 2))"
  by pat_completeness auto
termination
  by (relation "measure nat") auto

declare ilog2.simps [simp del]

definition pow2 :: "int \<Rightarrow> rat" where
  "pow2 e = (if 0 \<le> e then 2 ^ nat e else 1 / 2 ^ nat (- e))"

text \<open>For \<open>x > 0\<close>, the exponent \<open>e\<close> with \<open>pow2 e \<le> x < pow2 (e + 1)\<close>.\<close>

definition floorLog2 :: "rat \<Rightarrow> int" where
  "floorLog2 x =
     (let (p, q) = quotient_of x;
          e = ilog2 p - ilog2 q
      in if pow2 e \<le> x then e else e - 1)"

definition roundHalfEven :: "rat \<Rightarrow> int" where
  "roundHalfEven x =
     (let f = \<lfloor>x\<rfloor>; d = x - of_int f
      in if d < 1 / 2 then f else if 1 / 2 < d then f + 1 else if even f then f else f + 1)"

definition round64 :: "rat \<Rightarrow> rat" where
  "round64 x =
     (if x = 0 then 0
      else (let a = \<bar>x\<bar>;
                e = max (floorLog2 a - 52) (- 1074);
                m = roundHalfEven (a / pow2 e)
            in sgn x * of_int m * pow2 e))"

definition fdiv :: "rat \<Rightarrow> rat \<Rightarrow> rat" where
  "fdiv x y = round64 (x / y)"

definition fmul :: "rat \<Rightarrow> rat \<Rightarrow> rat" where
  "fmul x y = round64 (x * y)"

definition fadd :: "rat \<Rightarrow> rat \<Rightarrow> rat" where
  "fadd x y = round64 (x + y)"

subsection \<open>estimateTokens and calculateCost\<close>

definition CHARS_PER_TOKEN :: rat where
  "CHARS_PER_TOKEN = 4"

text \<open>The literals \<^verbatim>\<open>0.14\<close> and \<^verbatim>\<open>0.28\<close> denote the doubles nearest to them.\<close>

definition INPUT_COST_PER_MILLION :: rat where
  "INPUT_COST_PER_MILLION = round64 (14 / 100)"

definition OUTPUT_COST_PER_MILLION :: rat where
  "OUTPUT_COST_PER_MILLION = round64 (28 / 100)"

text \<open>
  \<^verbatim>\<open>Math.ceil(text.length / CHARS_PER_TOKEN)\<close>: a length divided by four is exact in
  binary64, so the quotient needs no rounding.
\<close>

definition estimateTokens :: "string \<Rightarrow> nat" where
  "estimateTokens text =
     (if text = [] then 0 else nat \<lceil>rat_of_nat (length text) / CHARS_PER_TOKEN\<rceil>)"

definition calculateCost :: "rat \<Rightarrow> rat \<Rightarrow> rat" where
  "calculateCost inputTokens outputTokens =
     (let inputCost = fmul (fdiv inputTokens 1000000) INPUT_COST_PER_MILLION;
          outputCost = fmul (fdiv outputTokens 1000000) OUTPUT_COST_PER_MILLION
      in fadd inputCost outputCost)"

section \<open>DeepSeek service: AI analysis with streaming\<close>

subsection \<open>Values read from the parsed JSON\<close>

datatype Severity = CRITICAL | HIGH | MEDIUM | LOW

datatype IssueCategory = Security | Bug | Performance | Quality

text \<open>
  The issue object built by \<^verbatim>\<open>parseIssuesFromResponse\<close>. Severity and category are
  checked against their lists; the other fields are copied from the model's JSON without
  a check of their type, so they hold a JSON value, or nothing where the source leaves
  \<^verbatim>\<open>undefined\<close>.
\<close>

record AnalysisIssue =
  issueId :: string
  severity :: Severity
  category :: IssueCategory
  issueFile :: json
  issueLine :: "rat option"
  title :: json
  issueDescription :: json
  impact :: "json option"
  issueFix :: "json option"
  codeExample :: "json option"

text \<open>
  Reading a property of a value that is not \<^verbatim>\<open>null\<close>: an object gives the value stored
  under the key, anything else \<^verbatim>\<open>undefined\<close> (none of the keys read here is a property
  of a string, a number, a boolean or an array). Reading a property of \<^verbatim>\<open>null\<close> throws;
  the callers test for it.
\<close>

fun getProp :: "json \<Rightarrow> string \<Rightarrow> json option" where
  "getProp (JObj kvs) k = map_of kvs k"
| "getProp v k = None"

fun truthy :: "json option \<Rightarrow> bool" where
  "truthy None = False"
| "truthy (Some JNull) = False"
| "truthy (Some (JBool b)) = b"
| "truthy (Some (JNum n)) = (n \<noteq> 0)"
| "truthy (Some (JStr s)) = (s \<noteq> [])"
| "truthy (Some (JArr xs)) = True"
| "truthy (Some (JObj kvs)) = True"

text \<open>\<^verbatim>\<open>a || b\<close> on values that may be \<^verbatim>\<open>undefined\<close>.\<close>

definition orElse :: "json option \<Rightarrow> json option \<Rightarrow> json option" where
  "orElse a b = (if truthy a then a else b)"

definition parseSeverity :: "json option \<Rightarrow> Severity" where
  "parseSeverity v =
     (if v = Some (JStr ''CRITICAL'') then CRITICAL
      else if v = Some (JStr ''HIGH'') then HIGH
      else if v = Some (JStr ''MEDIUM'') then MEDIUM
      else if v = Some (JStr ''LOW'') then LOW
      else MEDIUM)"

definition parseCategory :: "json option \<Rightarrow> IssueCategory" where
  "parseCategory v =
     (if v = Some (JStr ''security'') then Security
      else if v = Some (JStr ''bug'') then Bug
      else if v = Some (JStr ''performance'') then Performance
      else if v = Some (JStr ''quality'') then Quality
      else Quality)"

definition showInt :: "int \<Rightarrow> string" where
  "showInt i = (if i < 0 then ''-'' @ showNat (nat (- i)) else showNat (nat i))"

text \<open>
  The callback of \<^verbatim>\<open>parsed.issues.map\<close>. \<open>None\<close> is the TypeError of reading a property
  of \<^verbatim>\<open>null\<close>. \<open>now\<close> is the reading of \<^verbatim>\<open>Date.now()\<close>.
\<close>

definition normalizeIssue :: "int \<Rightarrow> nat \<Rightarrow> json \<Rightarrow> AnalysisIssue option" where
  "normalizeIssue now index issue =
     (if issue = JNull then None
      else Some
        \<lparr>issueId = ''issue-'' @ showInt now @ ''-'' @ showNat index,
         severity = parseSeverity (getProp issue ''severity''),
         category = parseCategory (getProp issue ''category''),
         issueFile = the (orElse (getProp issue ''file'') (Some (JStr ''unknown''))),
         issueLine = (case getProp issue ''line'' of Some (JNum n) \<Rightarrow> Some n | _ \<Rightarrow> None),
         title = the (orElse (getProp issue ''title'') (Some (JStr ''Issue found''))),
         issueDescription = the (orElse (getProp issue ''description'') (Some (JStr []))),
         impact = getProp issue ''impact'',
         issueFix = orElse (getProp issue ''fix'') (getProp issue ''suggestedFix''),
         codeExample = orElse (getProp issue ''codeExample'') (getProp issue ''code_example'')\<rparr>)"

subsection \<open>Extracting the JSON text\<close>

text \<open>
  White space of \<^verbatim>\<open>\s\<close> and of \<^verbatim>\<open>trim()\<close> among the code units below 256: tab, line
  feed, vertical tab, form feed, carriage return, space and no-break space.
\<close>

definition isSpace :: "char \<Rightarrow> bool" where
  "isSpace c = (c \<in> set [CHR 0x09, CHR 0x0A, CHR 0x0B, CHR 0x0C, CHR 0x0D, CHR 0x20, CHR 0xA0])"

definition trim :: "string \<Rightarrow> string" where
  "trim s = rev (dropWhile isSpace (rev (dropWhile isSpace s)))"

definition fence :: string where
  "fence = [CHR 0x60, CHR 0x60, CHR 0x60]"

text \<open>The text after the first fence of three backquotes, if there is one.\<close>

fun afterFence :: "string \<Rightarrow> string option" where
  "afterFence [] = None"
| "afterFence (c # cs) =
     (if startsWith (c # cs) fence then Some (drop 3 (c # cs)) else afterFence cs)"

text \<open>The text before the first fence, if there is one: the lazy group of the pattern.\<close>

fun beforeFence :: "string \<Rightarrow> string option" where
  "beforeFence [] = None"
| "beforeFence (c # cs) =
     (if startsWith (c # cs) fence then Some []
      else map_option ((#) c) (beforeFence cs))"

text \<open>
  The first group of the match of the response against the pattern: three backquotes, an
  optional \<^verbatim>\<open>json\<close>, white space, a lazy group of any characters, three backquotes.
  After the first fence the optional word and the white space are skipped, and the group
  runs up to the next fence. Neither skipped part holds a backquote, so taking less of
  them finds a closing fence exactly when taking all of them does, and no later opening
  fence can match when the first one does not.
\<close>

definition matchCodeBlock :: "string \<Rightarrow> string option" where
  "matchCodeBlock response =
     (case afterFence response of
        None \<Rightarrow> None
      | Some rest \<Rightarrow>
          (let rest1 = (if startsWith rest ''json'' then drop 4 rest else rest);
               rest2 = dropWhile isSpace rest1
           in beforeFence rest2))"

subsection \<open>parseIssuesFromResponse\<close>

text \<open>
  Every exception of the \<^verbatim>\<open>try\<close> block ends in the \<^verbatim>\<open>catch\<close>, which returns the empty
  array: \<^verbatim>\<open>JSON.parse\<close> throwing, \<^verbatim>\<open>parsed\<close> being \<^verbatim>\<open>null\<close>, an element of the array
  being \<^verbatim>\<open>null\<close>.
\<close>

definition extractJsonText :: "string \<Rightarrow> string" where
  "extractJsonText response =
     (case matchCodeBlock response of
        Some captured \<Rightarrow> trim captured
      | None \<Rightarrow> trim response)"

definition parseIssuesFromResponse :: "Env \<Rightarrow> int \<Rightarrow> string \<Rightarrow> AnalysisIssue list" where
  "parseIssuesFromResponse env now response =
     (let jsonStr = extractJsonText response
      in case JSON_parse env jsonStr of
           None \<Rightarrow> []
         | Some parsed \<Rightarrow>
             (if parsed = JNull then []
              else case getProp parsed ''issues'' of
                     Some (JArr issues) \<Rightarrow>
                       (case those (map (\<lambda>(index, issue). normalizeIssue now index issue)
                                      (enumerate 0 issues)) of
                          None \<Rightarrow> []
                        | Some result \<Rightarrow> result)
                   | _ \<Rightarrow> []))"

subsection \<open>streamAnalysis\<close>

definition newline :: string where
  "newline = [CHR 0x0A]"

fun joinWith :: "string \<Rightarrow> string list \<Rightarrow> string" where
  "joinWith sep [] = []"
| "joinWith sep [x] = x"
| "joinWith sep (x # y # ys) = x @ sep @ joinWith sep (y # ys)"

definition formatFilesForPrompt :: "FileContent list \<Rightarrow> string" where
  "formatFilesForPrompt files =
     joinWith newline
       (map (\<lambda>f. ''=== FILE: '' @ path f @ '' ==='' @ newline @ content f @ newline) files)"

text \<open>What the generator yields: a chunk of text, or the final result.\<close>

datatype StreamEvent =
    ChunkEvent string
  | CompleteResult (resultIssues: "AnalysisIssue list") (resultInputTokens: nat)
      (resultOutputTokens: nat) (resultCost: rat)

text \<open>
  The contents that the read loop appends to \<^verbatim>\<open>fullContent\<close> and yields as chunks: the
  non-empty ones, in order.
\<close>

definition streamedContents :: "string list list \<Rightarrow> string list" where
  "streamedContents rds = filter (\<lambda>c. c \<noteq> []) (concat rds)"

text \<open>
  The generator as a whole: the events it yields, in order, and the error it throws after
  them, if it throws. \<^verbatim>\<open>Date.now()\<close> is read once per issue while the response is
  parsed; the model uses the clock after the request for all of them.
\<close>

definition buildUserMessage :: "FileContent list \<Rightarrow> string" where
  "buildUserMessage files =
     ''Analyze the following '' @ showNat (length files) @ '' files:''
       @ newline @ newline @ formatFilesForPrompt files"

definition streamAnalysis ::
  "Env \<Rightarrow> FileContent list \<Rightarrow> string \<Rightarrow> PriorityLevel \<Rightarrow> World
     \<Rightarrow> (StreamEvent list \<times> JsError option) \<times> World" where
  "streamAnalysis env files apiKey priority w =
     (let systemPrompt = PROMPT env priority;
          userMessage = buildUserMessage files;
          inputTokens = estimateTokens systemPrompt + estimateTokens userMessage;
          w' = perform env (ChatCompletions apiKey systemPrompt userMessage) w
      in case chat_completions env (netlog w) apiKey systemPrompt userMessage of
           FetchFailed msg \<Rightarrow> (([], Some (newError msg)), w')
         | HttpResponse st errText body \<Rightarrow>
             (if \<not> (200 \<le> st \<and> st \<le> 299) then
                (if st = 401 then (([], Some (newError ''Invalid DeepSeek API key'')), w')
                 else if st = 429 then
                   (([], Some (newError ''DeepSeek rate limit exceeded. Please wait and try again.'')), w')
                 else (([], Some (newError (''DeepSeek API error: '' @ showNat st @ '' - '' @ errText))), w'))
              else case body of
                     None \<Rightarrow> (([], Some (newError ''Failed to get response stream'')), w')
                   | Some (StreamBody rds failure) \<Rightarrow>
                       (let chunks = streamedContents rds;
                            fullContent = concat chunks
                        in case failure of
                             Some msg \<Rightarrow> ((map ChunkEvent chunks, Some (newError msg)), w')
                           | None \<Rightarrow>
                               (let issues = parseIssuesFromResponse env (clock w') fullContent;
                                    outputTokens = estimateTokens fullContent;
                                    cost = calculateCost (of_nat inputTokens) (of_nat outputTokens)
                                in ((map ChunkEvent chunks
                                       @ [CompleteResult issues inputTokens outputTokens cost], None),
                                    w')))))"


section \<open>Analysis service: the orchestrator\<close>

subsection \<open>Server-sent events\<close>

datatype FileStatus = Scanning | FileDone

record PriorityEstimate =
  files :: nat
  estimatedTokens :: rat
  estimatedCost :: rat

record CompleteEventData =
  priority :: PriorityLevel
  filesScanned :: nat
  issuesFound :: nat
  tokensUsed :: nat
  cost :: rat
  nextPriorityEstimate :: "PriorityEstimate option"

text \<open>
  An event is its type and its data: \<open>StatusEvent message filesScanned totalFiles
  currentFile\<close>, \<open>FileEvent path priority status\<close>, \<open>IssueEvent issue\<close>,
  \<open>CompleteEvent data\<close> and \<open>ErrorEvent message code retryable\<close>.
\<close>

datatype SSEEvent =
    StatusEvent string nat nat "string option"
  | FileEvent string PriorityLevel FileStatus
  | IssueEvent AnalysisIssue
  | CompleteEvent CompleteEventData
  | ErrorEvent (errorMessage: string) (errorCode: string) (retryable: bool)

text \<open>
  The HTTP response, as far as the orchestrator uses it: the events written so far and
  whether \<^verbatim>\<open>end()\<close> was called.
\<close>

record Response =
  written :: "SSEEvent list"
  writableEnded :: bool

definition sendSSE :: "Response \<Rightarrow> SSEEvent \<Rightarrow> Response" where
  "sendSSE res event =
     (if writableEnded res then res else res\<lparr>written := written res @ [event]\<rparr>)"

definition endResponse :: "Response \<Rightarrow> Response" where
  "endResponse res = res\<lparr>writableEnded := True\<rparr>"

definition sendStatus :: "Response \<Rightarrow> string \<Rightarrow> nat \<Rightarrow> nat \<Rightarrow> string option \<Rightarrow> Response" where
  "sendStatus res msg scanned totalFiles currentFile =
     sendSSE res (StatusEvent msg scanned totalFiles currentFile)"

definition sendFileEvent :: "Response \<Rightarrow> string \<Rightarrow> PriorityLevel \<Rightarrow> FileStatus \<Rightarrow> Response" where
  "sendFileEvent res pth prio st = sendSSE res (FileEvent pth prio st)"

definition sendIssue :: "Response \<Rightarrow> AnalysisIssue \<Rightarrow> Response" where
  "sendIssue res issue = sendSSE res (IssueEvent issue)"

definition sendComplete :: "Response \<Rightarrow> CompleteEventData \<Rightarrow> Response" where
  "sendComplete res d = sendSSE res (CompleteEvent d)"

text \<open>The \<^verbatim>\<open>retryable\<close> parameter defaults to \<^verbatim>\<open>false\<close>; the model always passes it.\<close>

definition sendError :: "Response \<Rightarrow> string \<Rightarrow> string \<Rightarrow> bool \<Rightarrow> Response" where
  "sendError res msg code retry = sendSSE res (ErrorEvent msg code retry)"

subsection \<open>analyzeRepository\<close>

text \<open>The progress callback handed to \<^verbatim>\<open>getFilesForPriority\<close>.\<close>

definition reportProgress :: "PriorityLevel \<Rightarrow> Response progress" where
  "reportProgress prio current totalCount pth res =
     sendFileEvent
       (sendStatus res (''Fetching files... ('' @ showNat current @ ''/'' @ showNat totalCount @ '')'')
          current totalCount (Some pth))
       pth prio Scanning"

text \<open>
  One step of \<^verbatim>\<open>for await (const event of stream)\<close>: the state is the input tokens, the
  output tokens, the issues and the response.
\<close>

fun consumeEvent ::
  "nat \<times> nat \<times> AnalysisIssue list \<times> Response \<Rightarrow> StreamEvent
     \<Rightarrow> nat \<times> nat \<times> AnalysisIssue list \<times> Response" where
  "consumeEvent (totalInputTokens, totalOutputTokens, allIssues, res) (ChunkEvent c) =
     (totalInputTokens, totalOutputTokens, allIssues, res)"
| "consumeEvent (totalInputTokens, totalOutputTokens, allIssues, res)
       (CompleteResult issues inputTokens outputTokens cst) =
     (inputTokens, outputTokens, issues, foldl sendIssue res issues)"

text \<open>
  The estimate for the next priority, computed when the priority is below 3: it calls
  \<^verbatim>\<open>getFilesForPriority\<close> for the next priority without a progress callback.
\<close>

fun nextPriority :: "PriorityLevel \<Rightarrow> PriorityLevel option" where
  "nextPriority P1 = Some P2"
| "nextPriority P2 = Some P3"
| "nextPriority P3 = None"

definition estimateNextPriority ::
  "Env \<Rightarrow> string \<Rightarrow> string \<Rightarrow> PriorityLevel \<Rightarrow> string option \<Rightarrow> nat \<Rightarrow> nat \<Rightarrow> Response \<Rightarrow> World
     \<Rightarrow> (JsError + PriorityEstimate option) \<times> World" where
  "estimateNextPriority env ownr repo prio githubToken totalInputTokens nFiles res w =
     (case nextPriority prio of
        None \<Rightarrow> (Inr None, w)
      | Some nextPrio \<Rightarrow>
          (case getFilesForPriority env ownr repo nextPrio (MAX_FILES_PER_PRIORITY env) None
                  githubToken res w of
             (Inl error, res', w') \<Rightarrow> (Inl error, w')
           | (Inr (nextFiles, totalMatching), res', w') \<Rightarrow>
               (let q = fdiv (of_nat totalInputTokens) (of_nat nFiles);
                    avgTokensPerFile = (if q = 0 then 500 else q);
                    estTokens = of_int \<lceil>fmul (of_nat (length nextFiles)) avgTokensPerFile\<rceil>
                in (Inr (Some \<lparr>files = totalMatching, estimatedTokens = estTokens,
                                estimatedCost =
                                  calculateCost estTokens (fmul estTokens (round64 (2 / 10)))\<rparr>),
                    w'))))"

text \<open>
  The part of the \<^verbatim>\<open>try\<close> block after the repository is validated. \<open>Inl\<close> is an
  exception that reaches the \<^verbatim>\<open>catch\<close>; logging is left out.
\<close>

definition analyzeRepositoryBody ::
  "Env \<Rightarrow> Response \<Rightarrow> string \<Rightarrow> string \<Rightarrow> string \<Rightarrow> PriorityLevel \<Rightarrow> string option \<Rightarrow> World
     \<Rightarrow> (JsError + unit) \<times> Response \<times> World" where
  "analyzeRepositoryBody env res ownr repo apiKey prio githubToken w =
     (let res1 = sendStatus res (''Scanning '' @ getPriorityName prio @ '' files...'') 0 0 None
      in case getFilesForPriority env ownr repo prio (MAX_FILES_PER_PRIORITY env)
                (Some (reportProgress prio)) githubToken res1 w of
           (Inl error, res2, w1) \<Rightarrow> (Inl error, res2, w1)
         | (Inr (fetched, totalMatching), res2, w1) \<Rightarrow>
             (if length fetched = 0 then
                (let res3 = sendStatus res2
                              (''No files found for Priority '' @ showNat (priorityNumber prio)) 0 0 None;
                     res4 = sendComplete res3
                              \<lparr>priority = prio, filesScanned = 0, issuesFound = 0, tokensUsed = 0,
                               cost = 0, nextPriorityEstimate = None\<rparr>
                 in (Inr (), endResponse res4, w1))
              else
                (let res3 = foldl (\<lambda>r f. sendFileEvent r (path f) prio FileDone) res2 fetched;
                     res4 = sendStatus res3
                              (''Analyzing '' @ showNat (length fetched) @ '' files with AI...'')
                              (length fetched) (length fetched) None
                 in case streamAnalysis env fetched apiKey prio w1 of
                      ((events, thrown), w2) \<Rightarrow>
                        (case foldl consumeEvent (0, 0, [], res4) events of
                           (totalInputTokens, totalOutputTokens, allIssues, res5) \<Rightarrow>
                             (case thrown of
                                Some error \<Rightarrow> (Inl error, res5, w2)
                              | None \<Rightarrow>
                                  (let totalCost = calculateCost (of_nat totalInputTokens)
                                                     (of_nat totalOutputTokens);
                                       totalTokens = totalInputTokens + totalOutputTokens
                                   in case estimateNextPriority env ownr repo prio githubToken
                                             totalInputTokens (length fetched) res5 w2 of
                                        (Inl error, w3) \<Rightarrow> (Inl error, res5, w3)
                                      | (Inr estimate, w3) \<Rightarrow>
                                          (Inr (),
                                           sendComplete res5
                                             \<lparr>priority = prio, filesScanned = length fetched,
                                              issuesFound = length allIssues,
                                              tokensUsed = totalTokens, cost = totalCost,
                                              nextPriorityEstimate = estimate\<rparr>,
                                           w3)))))))"

text \<open>The \<^verbatim>\<open>catch\<close> block: the error event chosen by the text of the message.\<close>

definition reportFailure :: "Response \<Rightarrow> JsError \<Rightarrow> Response" where
  "reportFailure res error =
     (if includesStr (errMessage error) ''API key'' then
        sendError res (errMessage error) ''INVALID_API_KEY'' False
      else if includesStr (errMessage error) ''rate limit'' then
        sendError res (errMessage error) ''RATE_LIMITED'' True
      else sendError res (''Analysis failed: '' @ errMessage error) ''ANALYSIS_ERROR'' False)"

text \<open>
  The whole function. Each early \<^verbatim>\<open>return\<close> is preceded by \<^verbatim>\<open>res.end()\<close>, and the
  \<^verbatim>\<open>finally\<close> block ends the response once more.
\<close>

definition analyzeRepository ::
  "Env \<Rightarrow> Response \<Rightarrow> string \<Rightarrow> string \<Rightarrow> PriorityLevel \<Rightarrow> string option \<Rightarrow> World
     \<Rightarrow> Response \<times> World" where
  "analyzeRepository env res repoUrl apiKey prio githubToken w =
     (case parseGitHubUrl repoUrl of
        None \<Rightarrow>
          (endResponse (endResponse (sendError res ''Invalid GitHub URL format'' ''INVALID_URL'' False)), w)
      | Some (ownr, repo) \<Rightarrow>
          (let res1 = sendStatus res ''Validating repository...'' 0 0 None
           in case validateRepo env ownr repo githubToken w of
                (Inl error, w1) \<Rightarrow>
                  (endResponse (endResponse (sendError res1 (errMessage error) ''REPO_NOT_FOUND'' False)),
                   w1)
              | (Inr repoInfo, w1) \<Rightarrow>
                  (if isPrivate repoInfo \<and> \<not> truthyStr githubToken then
                     (endResponse
                        (endResponse
                           (sendError res1 ''Private repositories require login'' ''PRIVATE_REPO'' False)),
                      w1)
                   else case analyzeRepositoryBody env res1 ownr repo apiKey prio githubToken w1 of
                          (Inr u, res2, w2) \<Rightarrow> (endResponse res2, w2)
                        | (Inl error, res2, w2) \<Rightarrow> (endResponse (reportFailure res2 error), w2))))"


section \<open>Observations on runs\<close>

text \<open>The kinds of events, and the kinds of requests in the log.\<close>

fun isStatusOrFile :: "SSEEvent \<Rightarrow> bool" where
  "isStatusOrFile (StatusEvent m s t c) = True"
| "isStatusOrFile (FileEvent p pr st) = True"
| "isStatusOrFile e = False"

fun isIssue :: "SSEEvent \<Rightarrow> bool" where
  "isIssue (IssueEvent i) = True"
| "isIssue e = False"

fun isComplete :: "SSEEvent \<Rightarrow> bool" where
  "isComplete (CompleteEvent d) = True"
| "isComplete e = False"

fun isError :: "SSEEvent \<Rightarrow> bool" where
  "isError (ErrorEvent m c r) = True"
| "isError e = False"

fun isChatRequest :: "Request \<Rightarrow> bool" where
  "isChatRequest (ChatCompletions k s u) = True"
| "isChatRequest r = False"

fun isTreeRequest :: "Request \<Rightarrow> bool" where
  "isTreeRequest (GitGetTree a ownr repo t) = True"
| "isTreeRequest r = False"

fun isContentRequest :: "Request \<Rightarrow> bool" where
  "isContentRequest (ReposGetContent a ownr repo p) = True"
| "isContentRequest r = False"

text \<open>The requests that a step from world \<open>w\<close> to world \<open>w'\<close> added to the log.\<close>

definition issued :: "World \<Rightarrow> World \<Rightarrow> Request list" where
  "issued w w' = drop (length (netlog w)) (netlog w')"

text \<open>A response that has written nothing and is open, and a world that has done nothing.\<close>

definition newResponse :: Response where
  "newResponse = \<lparr>written = [], writableEnded = False\<rparr>"

definition newWorld :: World where
  "newWorld = \<lparr>clock = 0, fileTreeCache = Map.empty, netlog = []\<rparr>"


text \<open>
  The outcomes of the content requests for a list of paths, issued one after the other
  from a log \<open>hist\<close>: the outcome of each request is the answer to it after the requests
  before it.
\<close>

fun fetchOutcomes ::
  "Env \<Rightarrow> string option \<Rightarrow> string \<Rightarrow> string \<Rightarrow> Request list \<Rightarrow> string list
     \<Rightarrow> (JsError + FileContent) list" where
  "fetchOutcomes env octokit ownr repo hist [] = []"
| "fetchOutcomes env octokit ownr repo hist (p # ps) =
     fileContentResult env hist octokit ownr repo p
       # fetchOutcomes env octokit ownr repo (hist @ [ReposGetContent octokit ownr repo p]) ps"

text \<open>The contents of the successful outcomes, in order.\<close>

fun successes :: "(JsError + FileContent) list \<Rightarrow> FileContent list" where
  "successes [] = []"
| "successes (Inr c # outs) = c # successes outs"
| "successes (Inl e # outs) = successes outs"

text \<open>A progress callback that records its calls.\<close>

definition recordProgress :: "(nat \<times> nat \<times> string) list progress" where
  "recordProgress current totalCount pth calls = calls @ [(current, totalCount, pth)]"


text \<open>The batch entry built from the outcome of a request.\<close>

fun toBatchResult :: "string \<Rightarrow> JsError + FileContent \<Rightarrow> BatchResult" where
  "toBatchResult p (Inr c) = BatchSuccess c p"
| "toBatchResult p (Inl e) = BatchFailure p (errMessage e)"

text \<open>
  The progress callback applied once per path, in order, with the running count that
  starts after \<open>n\<close>.
\<close>

definition applyProgress :: "'r progress option \<Rightarrow> nat \<Rightarrow> nat \<Rightarrow> string list \<Rightarrow> 'r \<Rightarrow> 'r" where
  "applyProgress onProgress totalCount n ps r =
     (case onProgress of
        None \<Rightarrow> r
      | Some report \<Rightarrow> foldl (\<lambda>r (k, p). report (Suc k) totalCount p r) r (enumerate n ps))"

section \<open>A sample environment\<close>

text \<open>
  A public repository \<^verbatim>\<open>o/r\<close> with three blobs and a directory; every file has the same
  content; the AI service streams a text that is not JSON; every request takes one
  millisecond. The stand-in for \<^verbatim>\<open>JSON.parse\<close> knows three texts.
\<close>

definition sampleRepoData :: RepoData where
  "sampleRepoData =
     \<lparr>full_name = ''o/r'', api_description = None, stargazers_count = 0,
      api_language = None, updated_at = ''2024-01-01T00:00:00Z'', default_branch = ''main'',
      private_repo = False\<rparr>"

definition blobItem :: "string \<Rightarrow> TreeItem" where
  "blobItem p = \<lparr>item_type = ''blob'', item_path = Some p, item_sha = Some ''abc'', item_size = Some 8\<rparr>"

definition sampleTree :: "TreeItem list" where
  "sampleTree =
     [\<lparr>item_type = ''tree'', item_path = Some ''assets'', item_sha = Some ''abc'', item_size = None\<rparr>,
      blobItem ''src/auth/login.ts'', blobItem ''src/services/orders.ts'',
      blobItem ''assets/logo.png'']"

definition sampleParse :: "string \<Rightarrow> json option" where
  "sampleParse s =
     (if s = ''{}'' then Some (JObj [])
      else if s = ''[]'' then Some (JArr [])
      else if s = ''null'' then Some JNull
      else None)"

definition sampleEnv :: Env where
  "sampleEnv =
     \<lparr>minimatch = sampleMatcher,
      JSON_parse = sampleParse,
      base64_decode = (\<lambda>s. s),
      MAX_FILES_PER_PRIORITY = 20,
      GITHUB_TOKEN = None,
      PROMPT = (\<lambda>p. ''Review the files.''),
      repos_get = (\<lambda>hist a ownr repo. Inr sampleRepoData),
      git_getTree = (\<lambda>hist a ownr repo t. Inr sampleTree),
      repos_getContent = (\<lambda>hist a ownr repo p. Inr (ContentObject ''file'' (Some ''x = 1'') 5)),
      chat_completions = (\<lambda>hist k s u. HttpResponse 200 [] (Some (StreamBody [[''not '', ''json'']] None))),
      elapsed = (\<lambda>hist. 1)\<rparr>"

text \<open>The same, but the content request for the path \<^verbatim>\<open>b\<close> is answered with 404.\<close>

definition oneMissingEnv :: Env where
  "oneMissingEnv =
     sampleEnv\<lparr>repos_getContent :=
       (\<lambda>hist a ownr repo p.
          if p = ''b'' then Inl (JsError (Some 404) ''Not Found'')
          else Inr (ContentObject ''file'' (Some ''x = 1'') 5))\<rparr>"


text \<open>The number of tree-listing requests among the requests of a step.\<close>

definition treeListingCalls :: "World \<Rightarrow> World \<Rightarrow> nat" where
  "treeListingCalls w w' = length (filter isTreeRequest (issued w w'))"

text \<open>
  The answer of the tree listing as \<^verbatim>\<open>getFileTree\<close> returns it: the blobs of the tree, or
  the rewrapped error.
\<close>

definition listingResult :: "string \<Rightarrow> string \<Rightarrow> JsError + TreeItem list \<Rightarrow> JsError + FileEntry list" where
  "listingResult ownr repo answer =
     (case answer of
        Inl error \<Rightarrow> Inl (fileTreeError ownr repo error)
      | Inr tree \<Rightarrow> Inr (map toFileEntry (filter isBlob tree)))"

text \<open>
  Worlds with a cached tree for \<^verbatim>\<open>o/r\<close> on the default branch, written at time 0: one
  second old, and one millisecond past the time to live. \<open>lookupDownEnv\<close> answers the
  repository lookup with 403.
\<close>

definition cachedFiles :: "FileEntry list" where
  "cachedFiles = [\<lparr>entryPath = ''old.js'', entryType = ''file'', entrySize = 1, sha = ''abc''\<rparr>]"

definition freshWorld :: World where
  "freshWorld =
     \<lparr>clock = 1000, fileTreeCache = [''o/r/default'' \<mapsto> (cachedFiles, 0)], netlog = []\<rparr>"

definition staleWorld :: World where
  "staleWorld =
     \<lparr>clock = 300001, fileTreeCache = [''o/r/default'' \<mapsto> (cachedFiles, 0)], netlog = []\<rparr>"

definition lookupDownEnv :: Env where
  "lookupDownEnv =
     sampleEnv\<lparr>repos_get := (\<lambda>hist a ownr repo. Inl (JsError (Some 403) ''rate limit''))\<rparr>"


text \<open>The events that a step from response \<open>res\<close> to response \<open>res'\<close> wrote.\<close>

definition emitted :: "Response \<Rightarrow> Response \<Rightarrow> SSEEvent list" where
  "emitted res res' = drop (length (written res)) (written res')"

text \<open>
  The fetch phase of a run, when the run reaches it: the URL parses, the repository is
  validated and is not a private one without a token. Its value is what
  \<^verbatim>\<open>getFilesForPriority\<close> gives for the priority of the run.
\<close>

definition fetchPhase ::
  "Env \<Rightarrow> Response \<Rightarrow> string \<Rightarrow> PriorityLevel \<Rightarrow> string option \<Rightarrow> World
     \<Rightarrow> ((JsError + FileContent list \<times> nat) \<times> Response \<times> World) option" where
  "fetchPhase env res repoUrl prio githubToken w =
     (case parseGitHubUrl repoUrl of
        None \<Rightarrow> None
      | Some (ownr, repo) \<Rightarrow>
          (case validateRepo env ownr repo githubToken w of
             (Inl error, w1) \<Rightarrow> None
           | (Inr repoInfo, w1) \<Rightarrow>
               (if isPrivate repoInfo \<and> \<not> truthyStr githubToken then None
                else Some (getFilesForPriority env ownr repo prio (MAX_FILES_PER_PRIORITY env)
                             (Some (reportProgress prio)) githubToken
                             (sendStatus (sendStatus res ''Validating repository...'' 0 0 None)
                                (''Scanning '' @ getPriorityName prio @ '' files...'') 0 0 None)
                             w1))))"

text \<open>
  The estimate for the next priority fails exactly when there is a next priority and the
  file tree cannot be had.
\<close>

definition estimateFails ::
  "Env \<Rightarrow> string \<Rightarrow> PriorityLevel \<Rightarrow> string option \<Rightarrow> World \<Rightarrow> bool" where
  "estimateFails env repoUrl prio githubToken w =
     (case parseGitHubUrl repoUrl of
        None \<Rightarrow> False
      | Some (ownr, repo) \<Rightarrow>
          nextPriority prio \<noteq> None \<and> isl (fst (getFileTree env ownr repo None githubToken w)))"

text \<open>A JSON text with one issue, an empty object, and what \<^verbatim>\<open>JSON.parse\<close> makes of it.\<close>

definition oneIssueText :: string where
  "oneIssueText = ''{'' @ [CHR 0x22] @ ''issues'' @ [CHR 0x22] @ '':[{}]}''"

definition oneIssueEnv :: Env where
  "oneIssueEnv =
     sampleEnv\<lparr>JSON_parse := (\<lambda>s. if s = oneIssueText then Some (JObj [(''issues'', JArr [JObj []])])
                                  else None),
               chat_completions :=
                 (\<lambda>hist k s u. HttpResponse 200 [] (Some (StreamBody [[oneIssueText]] None)))\<rparr>"

text \<open>
  A world whose cached tree for \<^verbatim>\<open>o/r\<close> expires two milliseconds after the start, and
  an environment in which only the first repository lookup succeeds.
\<close>

definition expiringWorld :: World where
  "expiringWorld =
     \<lparr>clock = 0,
      fileTreeCache = [''o/r/default'' \<mapsto>
        ([\<lparr>entryPath = ''src/auth/login.ts'', entryType = ''file'', entrySize = 5, sha = ''abc''\<rparr>],
         - 299998)],
      netlog = []\<rparr>"

definition flakyEnv :: Env where
  "flakyEnv =
     sampleEnv\<lparr>repos_get :=
       (\<lambda>hist a ownr repo.
          if hist = [] then Inr sampleRepoData else Inl (JsError (Some 403) ''rate limit''))\<rparr>"


text \<open>
  The phase of an event within a run: fetch-phase events (status and file), issue events,
  and the terminal event (complete or error).
\<close>

fun eventPhase :: "SSEEvent \<Rightarrow> nat" where
  "eventPhase (StatusEvent m s t c) = 0"
| "eventPhase (FileEvent p pr st) = 0"
| "eventPhase (IssueEvent i) = 1"
| "eventPhase (CompleteEvent d) = 2"
| "eventPhase (ErrorEvent m c r) = 2"


text \<open>
  The tree that \<open>sampleEnv\<close> lists, as file entries, and the world after a first
  \<open>getFileTree\<close> call from \<open>newWorld\<close>.
\<close>

definition sampleFiles :: "FileEntry list" where
  "sampleFiles =
     [\<lparr>entryPath = ''src/auth/login.ts'', entryType = ''file'', entrySize = 8, sha = ''abc''\<rparr>,
      \<lparr>entryPath = ''src/services/orders.ts'', entryType = ''file'', entrySize = 8, sha = ''abc''\<rparr>,
      \<lparr>entryPath = ''assets/logo.png'', entryType = ''file'', entrySize = 8, sha = ''abc''\<rparr>]"

definition afterFirstCall :: World where
  "afterFirstCall = snd (getFileTree sampleEnv ''o'' ''r'' None None newWorld)"


section \<open>Properties of the file filter\<close>

lemma matchesAnyPattern_iff:
  "matchesAnyPattern mm filePath patterns \<longleftrightarrow> (\<exists>pattern \<in> set patterns. mm filePath pattern)"
  by (induction patterns) auto

text \<open>
  Claim C1. For every matcher and every path, \<open>getFilePriority\<close> consults the four
  pattern tables in the order Ignore, Priority 1, Priority 2, Priority 3, and the first
  table with a matching pattern decides: a match in the Ignore table gives the ignored
  result whatever else matches; otherwise a match in the Priority 1 table gives level 1
  even when Priority 2 or Priority 3 patterns match as well; and so on down the tables.
  A path that matches no pattern of any table is ignored, not given a default level.
\<close>

theorem getFilePriority_first_match_wins:
  fixes mm :: matcher
  defines "hit \<equiv> (\<lambda>filePath patterns. \<exists>pattern \<in> set patterns. mm filePath pattern)"
  shows
    "(hit filePath IGNORE_PATTERNS \<longrightarrow> getFilePriority mm filePath = None) \<and>
     (\<not> hit filePath IGNORE_PATTERNS \<and> hit filePath PRIORITY_1_PATTERNS \<longrightarrow>
        getFilePriority mm filePath = Some P1) \<and>
     (\<not> hit filePath IGNORE_PATTERNS \<and> \<not> hit filePath PRIORITY_1_PATTERNS \<and>
      hit filePath PRIORITY_2_PATTERNS \<longrightarrow> getFilePriority mm filePath = Some P2) \<and>
     (\<not> hit filePath IGNORE_PATTERNS \<and> \<not> hit filePath PRIORITY_1_PATTERNS \<and>
      \<not> hit filePath PRIORITY_2_PATTERNS \<and> hit filePath PRIORITY_3_PATTERNS \<longrightarrow>
        getFilePriority mm filePath = Some P3) \<and>
     (\<not> hit filePath IGNORE_PATTERNS \<and> \<not> hit filePath PRIORITY_1_PATTERNS \<and>
      \<not> hit filePath PRIORITY_2_PATTERNS \<and> \<not> hit filePath PRIORITY_3_PATTERNS \<longrightarrow>
        getFilePriority mm filePath = None)"
  unfolding hit_def getFilePriority_def shouldIgnoreFile_def matchesAnyPattern_iff
  by simp

lemma sample_logo:
  "getFilePriority sampleMatcher ''assets/logo.png'' = None"
proof -
  have "\<exists>pattern \<in> set IGNORE_PATTERNS. sampleMatcher ''assets/logo.png'' pattern"
    by code_simp
  then show ?thesis
    by (simp add: getFilePriority_def shouldIgnoreFile_def matchesAnyPattern_iff)
qed

theorem getFilePriority_first_match_wins_witness:
  "getFilePriority sampleMatcher ''node_modules/auth/x.js'' = None \<and>
   getFilePriority sampleMatcher ''src/auth/login.ts'' = Some P1 \<and>
   getFilePriority sampleMatcher ''src/services/orders.ts'' = Some P2 \<and>
   getFilePriority sampleMatcher ''README.md'' = Some P3 \<and>
   getFilePriority sampleMatcher ''Makefile'' = None"
proof -
  let ?hit = "\<lambda>filePath patterns. \<exists>pattern \<in> set patterns. sampleMatcher filePath pattern"
  have b: "?hit ''node_modules/auth/x.js'' IGNORE_PATTERNS \<and>
           ?hit ''node_modules/auth/x.js'' PRIORITY_1_PATTERNS"
    by code_simp
  have c: "\<not> ?hit ''src/auth/login.ts'' IGNORE_PATTERNS \<and>
           ?hit ''src/auth/login.ts'' PRIORITY_1_PATTERNS \<and>
           ?hit ''src/auth/login.ts'' PRIORITY_3_PATTERNS"
    by code_simp
  have d: "\<not> ?hit ''src/services/orders.ts'' IGNORE_PATTERNS \<and>
           \<not> ?hit ''src/services/orders.ts'' PRIORITY_1_PATTERNS \<and>
           ?hit ''src/services/orders.ts'' PRIORITY_2_PATTERNS"
    by code_simp
  have e: "\<not> ?hit ''README.md'' IGNORE_PATTERNS \<and>
           \<not> ?hit ''README.md'' PRIORITY_1_PATTERNS \<and>
           \<not> ?hit ''README.md'' PRIORITY_2_PATTERNS \<and>
           ?hit ''README.md'' PRIORITY_3_PATTERNS"
    by code_simp
  have f: "\<not> ?hit ''Makefile'' IGNORE_PATTERNS \<and>
           \<not> ?hit ''Makefile'' PRIORITY_1_PATTERNS \<and>
           \<not> ?hit ''Makefile'' PRIORITY_2_PATTERNS \<and>
           \<not> ?hit ''Makefile'' PRIORITY_3_PATTERNS"
    by code_simp
  have rb: "getFilePriority sampleMatcher ''node_modules/auth/x.js'' = None"
    using getFilePriority_first_match_wins [of sampleMatcher "''node_modules/auth/x.js''"] b
    by simp
  have rc: "getFilePriority sampleMatcher ''src/auth/login.ts'' = Some P1"
    using getFilePriority_first_match_wins [of sampleMatcher "''src/auth/login.ts''"] c
    by simp
  have rd: "getFilePriority sampleMatcher ''src/services/orders.ts'' = Some P2"
    using getFilePriority_first_match_wins [of sampleMatcher "''src/services/orders.ts''"] d
    by simp
  have re: "getFilePriority sampleMatcher ''README.md'' = Some P3"
    using getFilePriority_first_match_wins [of sampleMatcher "''README.md''"] e
    by simp
  have rf: "getFilePriority sampleMatcher ''Makefile'' = None"
    using getFilePriority_first_match_wins [of sampleMatcher "''Makefile''"] f
    by simp
  from rb rc rd re rf show ?thesis by simp
qed

section \<open>Lemmas on responses, batches and the request log\<close>

lemma sendSSE_written:
  "written (sendSSE res e) = (if writableEnded res then written res else written res @ [e])"
  by (simp add: sendSSE_def)

lemma sendSSE_ended [simp]: "writableEnded (sendSSE res e) = writableEnded res"
  by (simp add: sendSSE_def)

lemma sendSSE_open [simp]:
  "\<not> writableEnded res \<Longrightarrow> written (sendSSE res e) = written res @ [e]"
  by (simp add: sendSSE_def)

lemma endResponse_simps [simp]:
  "written (endResponse res) = written res" "writableEnded (endResponse res)"
  by (simp_all add: endResponse_def)

lemmas send_defs = sendStatus_def sendFileEvent_def sendIssue_def sendComplete_def sendError_def

lemma foldl_sendIssue_ended [simp]:
  "writableEnded (foldl sendIssue res xs) = writableEnded res"
  by (induction xs arbitrary: res) (simp_all add: sendIssue_def)

lemma foldl_sendIssue_written [simp]:
  "\<not> writableEnded res \<Longrightarrow> written (foldl sendIssue res xs) = written res @ map IssueEvent xs"
  by (induction xs arbitrary: res) (simp_all add: sendIssue_def)

lemma foldl_fileDone_ended [simp]:
  "writableEnded (foldl (\<lambda>r f. sendFileEvent r (path f) prio FileDone) res xs) = writableEnded res"
  by (induction xs arbitrary: res) (simp_all add: sendFileEvent_def)

lemma foldl_fileDone_written [simp]:
  "\<not> writableEnded res \<Longrightarrow>
   written (foldl (\<lambda>r f. sendFileEvent r (path f) prio FileDone) res xs) =
     written res @ map (\<lambda>f. FileEvent (path f) prio FileDone) xs"
  by (induction xs arbitrary: res) (simp_all add: sendFileEvent_def)

lemma reportProgress_ended [simp]:
  "writableEnded (reportProgress prio c t p res) = writableEnded res"
  by (simp add: reportProgress_def send_defs)

lemma reportProgress_written:
  "\<not> writableEnded res \<Longrightarrow>
   \<exists>evs. written (reportProgress prio c t p res) = written res @ evs \<and> list_all isStatusOrFile evs"
  by (simp add: reportProgress_def send_defs)

lemma processResults_progress:
  "\<not> writableEnded res \<Longrightarrow>
   processResults (Some (reportProgress prio)) t results (n, cs, res) = (n', cs', res') \<Longrightarrow>
   \<not> writableEnded res' \<and>
   (\<exists>evs. written res' = written res @ evs \<and> list_all isStatusOrFile evs)"
proof (induction results arbitrary: n cs res)
  case Nil
  then show ?case by simp
next
  case (Cons r rs)
  let ?res1 = "reportProgress prio (n + 1) t (resultPath r) res"
  from Cons.prems(1) obtain e1 where e1: "written ?res1 = written res @ e1" "list_all isStatusOrFile e1"
    using reportProgress_written by blast
  have open1: "\<not> writableEnded ?res1" using Cons.prems(1) by simp
  from Cons.prems(2) obtain cs1 where
    "processResults (Some (reportProgress prio)) t rs (n + 1, cs1, ?res1) = (n', cs', res')"
    by (simp add: Let_def)
  from Cons.IH [OF open1 this] obtain e2 where
    "\<not> writableEnded res'" "written res' = written ?res1 @ e2" "list_all isStatusOrFile e2"
    by blast
  with e1 show ?case by auto
qed

lemma processResults_none:
  "processResults None t results (n, cs, res) = (n', cs', res') \<Longrightarrow> res' = res"
  by (induction results arbitrary: n cs) (auto simp: Let_def)

lemma perform_simps [simp]:
  "netlog (perform env req w) = netlog w @ [req]"
  "fileTreeCache (perform env req w) = fileTreeCache w"
  by (simp_all add: perform_def)

lemma getFileContent_eq:
  "getFileContent env ownr repo p token w =
     (fileContentResult env (netlog w) (createOctokit env token) ownr repo p,
      perform env (ReposGetContent (createOctokit env token) ownr repo p) w)"
  by (simp add: getFileContent_def Let_def)

lemma fetchBatch_outcomes:
  "fetchBatch env ownr repo token ps w = (results, w') \<Longrightarrow>
   results = map2 toBatchResult ps
               (fetchOutcomes env (createOctokit env token) ownr repo (netlog w) ps) \<and>
   netlog w' = netlog w @ map (ReposGetContent (createOctokit env token) ownr repo) ps \<and>
   fileTreeCache w' = fileTreeCache w"
proof (induction ps arbitrary: w results w')
  case Nil
  then show ?case by simp
next
  case (Cons p ps)
  let ?w1 = "perform env (ReposGetContent (createOctokit env token) ownr repo p) w"
  obtain rs w2 where rec: "fetchBatch env ownr repo token ps ?w1 = (rs, w2)"
    by (cases "fetchBatch env ownr repo token ps ?w1")
  from Cons.IH [OF rec] Cons.prems rec show ?case
    by (auto simp: getFileContent_eq split: sum.splits)
qed

lemma length_fetchOutcomes [simp]:
  "length (fetchOutcomes env oct ownr repo hist ps) = length ps"
  by (induction ps arbitrary: hist) simp_all

lemma fetchOutcomes_append:
  "fetchOutcomes env oct ownr repo hist (ps @ qs) =
     fetchOutcomes env oct ownr repo hist ps
       @ fetchOutcomes env oct ownr repo (hist @ map (ReposGetContent oct ownr repo) ps) qs"
  by (induction ps arbitrary: hist) simp_all

lemma successes_append [simp]: "successes (xs @ ys) = successes xs @ successes ys"
  by (induction xs rule: successes.induct) simp_all

lemma length_successes: "length (successes outs) + length (filter isl outs) = length outs"
  by (induction outs rule: successes.induct) simp_all

lemma processResults_record:
  "length outs = length ps \<Longrightarrow>
   processResults (Some recordProgress) t (map2 toBatchResult ps outs) (n, cs, calls) =
     (n + length ps, cs @ successes outs,
      calls @ map (\<lambda>k. (n + k + 1, t, ps ! k)) [0..<length ps])"
proof (induction ps arbitrary: outs n cs calls)
  case Nil
  then show ?case by simp
next
  case (Cons p ps)
  then obtain out outs' where outs: "outs = out # outs'" "length outs' = length ps"
    by (cases outs) auto
  have upt: "[0..<length (p # ps)] = 0 # map Suc [0..<length ps]"
    by (simp add: upt_conv_Cons map_Suc_upt del: upt_Suc)
  have shift: "map (\<lambda>k. (n + k + 1, t, (p # ps) ! k)) [0..<length (p # ps)] =
        (n + 1, t, p) # map (\<lambda>k. (Suc n + k + 1, t, ps ! k)) [0..<length ps]"
    unfolding upt by simp
  show ?case
    unfolding outs shift
    using Cons.IH [OF outs(2), of "Suc n"]
    by (cases out) (simp_all add: Let_def recordProgress_def)
qed

lemma applyProgress_Nil [simp]: "applyProgress onP t n [] r = r"
  by (simp add: applyProgress_def split: option.splits)

lemma applyProgress_append:
  "applyProgress onP t n (ps @ qs) r =
     applyProgress onP t (n + length ps) qs (applyProgress onP t n ps r)"
  by (simp add: applyProgress_def enumerate_append_eq split: option.splits)

lemma processResults_general:
  "length outs = length ps \<Longrightarrow>
   processResults onP t (map2 toBatchResult ps outs) (n, cs, r) =
     (n + length ps, cs @ successes outs, applyProgress onP t n ps r)"
proof (induction ps arbitrary: outs n cs r)
  case Nil
  then show ?case by simp
next
  case (Cons p ps)
  then obtain out outs' where outs: "outs = out # outs'" "length outs' = length ps"
    by (cases outs) auto
  show ?case
    unfolding outs
    using Cons.IH [OF outs(2), of "Suc n"]
    by (cases out; cases onP) (simp_all add: Let_def applyProgress_def)
qed

lemma batchLoop_general:
  "batchLoop env ownr repo token onP fs i (n, cs, r) w = (cs', r', w') \<Longrightarrow>
   cs' = cs @ successes (fetchOutcomes env (createOctokit env token) ownr repo (netlog w) (drop i fs)) \<and>
   r' = applyProgress onP (length fs) n (drop i fs) r \<and>
   netlog w' = netlog w @ map (ReposGetContent (createOctokit env token) ownr repo) (drop i fs) \<and>
   fileTreeCache w' = fileTreeCache w"
proof (induction "length fs - i" arbitrary: i n cs r w rule: less_induct)
  case less
  let ?oct = "createOctokit env token"
  show ?case
  proof (cases "i < length fs")
    case False
    with less.prems show ?thesis
      by (subst (asm) batchLoop.simps) simp
  next
    case True
    let ?batch = "take BATCH_SIZE (drop i fs)"
    obtain results w1 where fb: "fetchBatch env ownr repo token ?batch w = (results, w1)"
      by (cases "fetchBatch env ownr repo token ?batch w")
    let ?outs = "fetchOutcomes env ?oct ownr repo (netlog w) ?batch"
    from fetchBatch_outcomes [OF fb] have
      res: "results = map2 toBatchResult ?batch ?outs"
      and log1: "netlog w1 = netlog w @ map (ReposGetContent ?oct ownr repo) ?batch"
      and cache1: "fileTreeCache w1 = fileTreeCache w"
      by simp_all
    have pr: "processResults onP (length fs) results (n, cs, r) =
        (n + length ?batch, cs @ successes ?outs, applyProgress onP (length fs) n ?batch r)"
      unfolding res by (rule processResults_general) simp
    let ?w2 = "if i + BATCH_SIZE < length fs then w1\<lparr>clock := clock w1 + 200\<rparr> else w1"
    have unfold: "batchLoop env ownr repo token onP fs i (n, cs, r) w =
        batchLoop env ownr repo token onP fs (i + BATCH_SIZE)
          (processResults onP (length fs) results (n, cs, r)) ?w2"
      by (subst batchLoop.simps) (simp add: True fb Let_def)
    from less.prems have rec:
      "batchLoop env ownr repo token onP fs (i + BATCH_SIZE)
         (n + length ?batch, cs @ successes ?outs, applyProgress onP (length fs) n ?batch r) ?w2
       = (cs', r', w')"
      unfolding unfold pr .
    have dec: "length fs - (i + BATCH_SIZE) < length fs - i"
      using True by (simp add: BATCH_SIZE_def)
    have split: "drop i fs = ?batch @ drop (i + BATCH_SIZE) fs"
      by (metis add.commute append_take_drop_id drop_drop)
    have log2: "netlog ?w2 = netlog w1" and cache2: "fileTreeCache ?w2 = fileTreeCache w1"
      by simp_all
    from less.hyps [OF dec rec] show ?thesis
      unfolding log2 cache2 log1 cache1
      by (subst (1 2 3) split)
         (simp add: fetchOutcomes_append applyProgress_append)
  qed
qed

lemma getFilesContents_general:
  "getFilesContents env ownr repo paths maxFiles onP token r w = (cs', r', w') \<Longrightarrow>
   cs' = successes (fetchOutcomes env (createOctokit env token) ownr repo (netlog w) (sliceTo paths maxFiles)) \<and>
   r' = applyProgress onP (length (sliceTo paths maxFiles)) 0 (sliceTo paths maxFiles) r \<and>
   netlog w' = netlog w @ map (ReposGetContent (createOctokit env token) ownr repo) (sliceTo paths maxFiles) \<and>
   fileTreeCache w' = fileTreeCache w"
  unfolding getFilesContents_def Let_def
  by (drule batchLoop_general) simp

section \<open>Fetching a batch with one failing file\<close>

text \<open>
  Claim C5. When the list of paths is no longer than \<open>maxFiles\<close> and the content
  request fails for exactly one position of the list, \<open>getFilesContents\<close> issues one
  content request per path, in the order of the list, and returns the contents of the
  requests that succeeded, in that order: one entry less than there are paths. It has
  called the progress callback once for every path, failed or not: with the running
  count, the number of paths and the path, in the order of the list. The call itself has
  no failing outcome.
\<close>

theorem getFilesContents_one_failure:
  assumes fits: "int (length paths) \<le> maxFiles"
    and one: "length (filter isl (fetchOutcomes env (createOctokit env token) ownr repo
                                    (netlog w) paths)) = 1"
  shows "case getFilesContents env ownr repo paths maxFiles (Some recordProgress) token [] w of
           (contents, calls, w') \<Rightarrow>
             contents = successes (fetchOutcomes env (createOctokit env token) ownr repo
                                     (netlog w) paths) \<and>
             length contents = length paths - 1 \<and>
             calls = map (\<lambda>(k, p). (Suc k, length paths, p)) (enumerate 0 paths) \<and>
             length calls = length paths \<and>
             issued w w' = map (ReposGetContent (createOctokit env token) ownr repo) paths"
proof -
  obtain contents calls w' where
    run: "getFilesContents env ownr repo paths maxFiles (Some recordProgress) token [] w
            = (contents, calls, w')"
    by (cases "getFilesContents env ownr repo paths maxFiles (Some recordProgress) token [] w")
  have whole: "sliceTo paths maxFiles = paths"
    using fits by (simp add: sliceTo_def)
  let ?outs = "fetchOutcomes env (createOctokit env token) ownr repo (netlog w) paths"
  from getFilesContents_general [OF run] have
    c: "contents = successes ?outs" and
    r: "calls = applyProgress (Some recordProgress) (length paths) 0 paths []" and
    l: "netlog w' = netlog w @ map (ReposGetContent (createOctokit env token) ownr repo) paths"
    unfolding whole by simp_all
  have "length (successes ?outs) + length (filter isl ?outs) = length paths"
    using length_successes [of ?outs] by simp
  with one c have n: "length contents = length paths - 1" by simp
  have rec: "foldl (\<lambda>r (k, p). recordProgress (Suc k) t p r) acc xs =
             acc @ map (\<lambda>(k, p). (Suc k, t, p)) xs" for t acc xs
    by (induction xs arbitrary: acc) (auto simp: recordProgress_def)
  have calls: "calls = map (\<lambda>(k, p). (Suc k, length paths, p)) (enumerate 0 paths)"
    unfolding r applyProgress_def by (simp add: rec)
  then have lc: "length calls = length paths" by simp
  from l have iss: "issued w w' = map (ReposGetContent (createOctokit env token) ownr repo) paths"
    by (simp add: issued_def)
  from run c n calls lc iss show ?thesis by simp
qed

lemma oneMissing_outcomes:
  "fetchOutcomes oneMissingEnv (createOctokit oneMissingEnv None) ''o'' ''r''
       (netlog newWorld) [''a'', ''b'', ''c'', ''d'', ''e'', ''f''] =
     [Inr \<lparr>path = ''a'', content = ''x = 1'', contentSize = 5\<rparr>,
      Inl (newError ''File not found: b''),
      Inr \<lparr>path = ''c'', content = ''x = 1'', contentSize = 5\<rparr>,
      Inr \<lparr>path = ''d'', content = ''x = 1'', contentSize = 5\<rparr>,
      Inr \<lparr>path = ''e'', content = ''x = 1'', contentSize = 5\<rparr>,
      Inr \<lparr>path = ''f'', content = ''x = 1'', contentSize = 5\<rparr>]"
  by (simp add: oneMissingEnv_def sampleEnv_def fileContentResult_def)

theorem getFilesContents_one_failure_witness:
  "case getFilesContents oneMissingEnv ''o'' ''r'' [''a'', ''b'', ''c'', ''d'', ''e'', ''f''] 20
          (Some recordProgress) None [] newWorld of
     (contents, calls, w') \<Rightarrow>
       contents = [\<lparr>path = ''a'', content = ''x = 1'', contentSize = 5\<rparr>,
                   \<lparr>path = ''c'', content = ''x = 1'', contentSize = 5\<rparr>,
                   \<lparr>path = ''d'', content = ''x = 1'', contentSize = 5\<rparr>,
                   \<lparr>path = ''e'', content = ''x = 1'', contentSize = 5\<rparr>,
                   \<lparr>path = ''f'', content = ''x = 1'', contentSize = 5\<rparr>] \<and>
       calls = [(1, 6, ''a''), (2, 6, ''b''), (3, 6, ''c''), (4, 6, ''d''), (5, 6, ''e''), (6, 6, ''f'')] \<and>
       issued newWorld w' =
         [ReposGetContent None ''o'' ''r'' ''a'', ReposGetContent None ''o'' ''r'' ''b'',
          ReposGetContent None ''o'' ''r'' ''c'', ReposGetContent None ''o'' ''r'' ''d'',
          ReposGetContent None ''o'' ''r'' ''e'', ReposGetContent None ''o'' ''r'' ''f'']"
proof -
  have one: "length (filter isl (fetchOutcomes oneMissingEnv (createOctokit oneMissingEnv None)
       ''o'' ''r'' (netlog newWorld) [''a'', ''b'', ''c'', ''d'', ''e'', ''f''])) = 1"
    unfolding oneMissing_outcomes by simp
  have oct: "createOctokit oneMissingEnv None = None"
    by (simp add: createOctokit_def oneMissingEnv_def sampleEnv_def)
  from getFilesContents_one_failure [of "[''a'', ''b'', ''c'', ''d'', ''e'', ''f'']" 20
          oneMissingEnv None "''o''" "''r''" newWorld, OF _ one]
  show ?thesis
    unfolding oneMissing_outcomes
    by (simp add: oct enumerate_eq_zip upt_rec split: prod.splits)
qed

section \<open>The file tree cache\<close>

lemma issued_append: "netlog w' = netlog w @ ext \<Longrightarrow> issued w w' = ext"
  by (simp add: issued_def)

lemma issued_self [simp]: "issued w w = []"
  by (simp add: issued_def)

lemma netlog_clock_update [simp]: "netlog (w\<lparr>clock := c\<rparr>) = netlog w"
  by simp

lemma validateRepo_world:
  "snd (validateRepo env ownr repo token w) =
     perform env (ReposGet (createOctokit env token) ownr repo) w"
  by (simp add: validateRepo_def Let_def split: sum.splits)

lemma validateRepo_result:
  "fst (validateRepo env ownr repo token w) =
     (case repos_get env (netlog w) (createOctokit env token) ownr repo of
        Inr d \<Rightarrow>
          Inr \<lparr>owner = ownr, name = repo, fullName = full_name d,
                description = api_description d, stars = stargazers_count d,
                language = api_language d, lastUpdate = updated_at d,
                defaultBranch = default_branch d, isPrivate = private_repo d\<rparr>
      | Inl error \<Rightarrow>
          (if errStatus error = Some 404 then
             Inl (newError (''Repository not found: '' @ ownr @ ''/'' @ repo))
           else if errStatus error = Some 403 then
             Inl (newError ''GitHub API rate limit exceeded. Try again later or add a GITHUB_TOKEN.'')
           else Inl (newError (''Failed to fetch repository: '' @ errMessage error))))"
  by (simp add: validateRepo_def Let_def split: sum.splits)

lemma fetchFileTree_branch:
  assumes "truthyStr branch"
  shows "fst (fetchFileTree env ownr repo branch token w) =
           listingResult ownr repo
             (git_getTree env (netlog w) (createOctokit env token) ownr repo (the branch))"
    and "netlog (snd (fetchFileTree env ownr repo branch token w)) =
           netlog w @ [GitGetTree (createOctokit env token) ownr repo (the branch)]"
  using assms
  by (simp_all add: fetchFileTree_def listingResult_def Let_def split: sum.splits)

lemma fetchFileTree_lookup_fails:
  assumes "\<not> truthyStr branch"
    and "isl (repos_get env (netlog w) (createOctokit env token) ownr repo)"
  shows "isl (fst (fetchFileTree env ownr repo branch token w))"
    and "snd (fetchFileTree env ownr repo branch token w) =
           perform env (ReposGet (createOctokit env token) ownr repo) w"
proof -
  obtain res w1 where v: "validateRepo env ownr repo token w = (res, w1)"
    by (cases "validateRepo env ownr repo token w")
  from assms(2) have "isl (fst (validateRepo env ownr repo token w))"
    unfolding validateRepo_result by (auto split: sum.splits)
  with v obtain e where e: "res = Inl e" by (cases res) auto
  from v have w1: "w1 = perform env (ReposGet (createOctokit env token) ownr repo) w"
    using validateRepo_world [of env ownr repo token w] by simp
  show "isl (fst (fetchFileTree env ownr repo branch token w))"
    and "snd (fetchFileTree env ownr repo branch token w) =
           perform env (ReposGet (createOctokit env token) ownr repo) w"
    using assms(1) v e w1 by (simp_all add: fetchFileTree_def Let_def)
qed

lemma fetchFileTree_lookup_ok:
  assumes "\<not> truthyStr branch"
    and "repos_get env (netlog w) (createOctokit env token) ownr repo = Inr d"
  shows "fst (fetchFileTree env ownr repo branch token w) =
           listingResult ownr repo
             (git_getTree env (netlog w @ [ReposGet (createOctokit env token) ownr repo])
                (createOctokit env token) ownr repo (default_branch d))"
    and "netlog (snd (fetchFileTree env ownr repo branch token w)) =
           netlog w @ [ReposGet (createOctokit env token) ownr repo,
                       GitGetTree (createOctokit env token) ownr repo (default_branch d)]"
proof -
  obtain res w1 where v: "validateRepo env ownr repo token w = (res, w1)"
    by (cases "validateRepo env ownr repo token w")
  from v assms(2) obtain info where info: "res = Inr info" "defaultBranch info = default_branch d"
    using validateRepo_result [of env ownr repo token w] by auto
  from v have w1: "w1 = perform env (ReposGet (createOctokit env token) ownr repo) w"
    using validateRepo_world [of env ownr repo token w] by simp
  show "fst (fetchFileTree env ownr repo branch token w) =
           listingResult ownr repo
             (git_getTree env (netlog w @ [ReposGet (createOctokit env token) ownr repo])
                (createOctokit env token) ownr repo (default_branch d))"
    and "netlog (snd (fetchFileTree env ownr repo branch token w)) =
           netlog w @ [ReposGet (createOctokit env token) ownr repo,
                       GitGetTree (createOctokit env token) ownr repo (default_branch d)]"
    using assms(1) v info w1
    by (simp_all add: fetchFileTree_def listingResult_def Let_def split: sum.splits)
qed

lemma treeListingCalls_self [simp]: "treeListingCalls w w = 0"
  by (simp add: treeListingCalls_def)

text \<open>
  What a call does when the cache holds an entry for its key: served while the entry is
  younger than \<open>CACHE_TTL\<close>, fetched from the network otherwise.
\<close>

lemma getFileTree_cached_entry:
  fixes env :: Env and token :: "string option"
  defines "octokit \<equiv> createOctokit env token"
  assumes cached: "fileTreeCache w (cacheKey ownr repo branch) = Some (data, timestamp)"
  shows
    "(clock w - timestamp < CACHE_TTL \<longrightarrow>
        getFileTree env ownr repo branch token w = (Inr data, w)) \<and>
     (CACHE_TTL \<le> clock w - timestamp \<longrightarrow>
        (case getFileTree env ownr repo branch token w of
           (result, w') \<Rightarrow>
             (truthyStr branch \<longrightarrow>
                treeListingCalls w w' = 1 \<and>
                result = listingResult ownr repo
                           (git_getTree env (netlog w) octokit ownr repo (the branch))) \<and>
             (\<not> truthyStr branch \<longrightarrow>
                (case repos_get env (netlog w) octokit ownr repo of
                   Inr d \<Rightarrow>
                     treeListingCalls w w' = 1 \<and>
                     result = listingResult ownr repo
                                (git_getTree env (netlog w @ [ReposGet octokit ownr repo])
                                   octokit ownr repo (default_branch d))
                 | Inl error \<Rightarrow> treeListingCalls w w' = 0 \<and> isl result))))"
proof (intro conjI impI)
  assume "clock w - timestamp < CACHE_TTL"
  then show "getFileTree env ownr repo branch token w = (Inr data, w)"
    using cached by (simp add: getFileTree_def)
next
  assume stale: "CACHE_TTL \<le> clock w - timestamp"
  then have go: "getFileTree env ownr repo branch token w = fetchFileTree env ownr repo branch token w"
    using cached by (simp add: getFileTree_def)
  obtain result w' where run: "fetchFileTree env ownr repo branch token w = (result, w')"
    by (cases "fetchFileTree env ownr repo branch token w")
  have "(truthyStr branch \<longrightarrow>
           treeListingCalls w w' = 1 \<and>
           result = listingResult ownr repo
                      (git_getTree env (netlog w) octokit ownr repo (the branch))) \<and>
        (\<not> truthyStr branch \<longrightarrow>
           (case repos_get env (netlog w) octokit ownr repo of
              Inr d \<Rightarrow>
                treeListingCalls w w' = 1 \<and>
                result = listingResult ownr repo
                           (git_getTree env (netlog w @ [ReposGet octokit ownr repo])
                              octokit ownr repo (default_branch d))
            | Inl error \<Rightarrow> treeListingCalls w w' = 0 \<and> isl result))"
  proof (rule conjI; rule impI)
    assume b: "truthyStr branch"
    from fetchFileTree_branch [OF b, of env ownr repo token w] run
    show "treeListingCalls w w' = 1 \<and>
          result = listingResult ownr repo
                     (git_getTree env (netlog w) octokit ownr repo (the branch))"
      by (simp add: treeListingCalls_def issued_append octokit_def)
  next
    assume nb: "\<not> truthyStr branch"
    show "case repos_get env (netlog w) octokit ownr repo of
            Inr d \<Rightarrow>
              treeListingCalls w w' = 1 \<and>
              result = listingResult ownr repo
                         (git_getTree env (netlog w @ [ReposGet octokit ownr repo])
                            octokit ownr repo (default_branch d))
          | Inl error \<Rightarrow> treeListingCalls w w' = 0 \<and> isl result"
    proof (cases "repos_get env (netlog w) octokit ownr repo")
      case (Inr d)
      from fetchFileTree_lookup_ok [OF nb Inr [unfolded octokit_def]] run Inr
      show ?thesis
        by (simp add: treeListingCalls_def issued_append octokit_def)
    next
      case (Inl error)
      then have "isl (repos_get env (netlog w) (createOctokit env token) ownr repo)"
        by (simp add: octokit_def)
      from fetchFileTree_lookup_fails [OF nb this] run Inl
      show ?thesis
        by (simp add: treeListingCalls_def issued_append)
    qed
  qed
  with go run
  show "case getFileTree env ownr repo branch token w of
          (result, w') \<Rightarrow>
            (truthyStr branch \<longrightarrow>
               treeListingCalls w w' = 1 \<and>
               result = listingResult ownr repo
                          (git_getTree env (netlog w) octokit ownr repo (the branch))) \<and>
            (\<not> truthyStr branch \<longrightarrow>
               (case repos_get env (netlog w) octokit ownr repo of
                  Inr d \<Rightarrow>
                    treeListingCalls w w' = 1 \<and>
                    result = listingResult ownr repo
                               (git_getTree env (netlog w @ [ReposGet octokit ownr repo])
                                  octokit ownr repo (default_branch d))
                | Inl error \<Rightarrow> treeListingCalls w w' = 0 \<and> isl result))"
    by simp
qed

lemma sample_key: "cacheKey ''o'' ''r'' None = ''o/r/default''"
  by (simp add: cacheKey_def)

text \<open>A successful fetch stores the listed files under the key of the call, with the time of the write.\<close>

lemma fetchFileTree_writes:
  assumes "fetchFileTree env ownr repo branch token w = (Inr fs, w')"
  shows "fileTreeCache w' (cacheKey ownr repo branch) = Some (fs, clock w')"
    and "netlog w' \<noteq> netlog w"
  using assms
  by (auto simp: fetchFileTree_def validateRepo_def perform_def Let_def
      split: sum.splits prod.splits if_splits)

lemma getFileTree_success_entry:
  assumes "getFileTree env ownr repo branch token w = (Inr fs, w1)"
  shows "\<exists>timestamp.
           fileTreeCache w1 (cacheKey ownr repo branch) = Some (fs, timestamp) \<and>
           (timestamp = clock w1 \<and> netlog w1 \<noteq> netlog w \<or>
            w1 = w \<and> clock w - timestamp < CACHE_TTL)"
proof (cases "fileTreeCache w (cacheKey ownr repo branch)")
  case None
  with assms have "fetchFileTree env ownr repo branch token w = (Inr fs, w1)"
    by (simp add: getFileTree_def)
  from fetchFileTree_writes [OF this] show ?thesis by blast
next
  case (Some entry)
  obtain data ts where entry: "entry = (data, ts)" by (cases entry)
  show ?thesis
  proof (cases "clock w - ts < CACHE_TTL")
    case True
    with assms Some entry have "fs = data" "w1 = w"
      by (simp_all add: getFileTree_def)
    with Some entry True have
      "fileTreeCache w1 (cacheKey ownr repo branch) = Some (fs, ts)"
      "w1 = w \<and> clock w - ts < CACHE_TTL"
      by simp_all
    then show ?thesis by blast
  next
    case False
    with assms Some entry have "fetchFileTree env ownr repo branch token w = (Inr fs, w1)"
      by (simp add: getFileTree_def)
    from fetchFileTree_writes [OF this] show ?thesis by blast
  qed
qed

text \<open>
  Claim C6, as amended. Take two \<open>getFileTree\<close> calls with the same owner, name and
  branch, the first of which succeeds, and let the cache entry of their key be untouched
  between them. After the first call the cache holds the returned tree under the key,
  with a time stamp: the time of the write when the first call went to the network,
  otherwise the stamp of the entry, younger than \<open>CACHE_TTL\<close>, that it served. A second
  call made while the entry is younger than \<open>CACHE_TTL\<close> (five minutes) returns the same
  tree and leaves the world as it is: it issues no request. Once the age has reached
  \<open>CACHE_TTL\<close> the entry is not served: the result is the answer of the network. With a
  branch given the second call issues exactly one tree-listing request. With the branch
  left out it first looks the default branch up with one repository request; if that
  succeeds it issues exactly one tree-listing request, and if that fails it issues none
  and the call fails.
\<close>

theorem getFileTree_two_calls:
  fixes env :: Env and token2 :: "string option"
  defines "octokit \<equiv> createOctokit env token2"
  assumes first: "getFileTree env ownr repo branch token w = (Inr fs, w1)"
    and kept: "fileTreeCache w2 (cacheKey ownr repo branch) =
               fileTreeCache w1 (cacheKey ownr repo branch)"
  shows
    "case fileTreeCache w1 (cacheKey ownr repo branch) of
       None \<Rightarrow> False
     | Some (data, timestamp) \<Rightarrow>
         data = fs \<and>
         (timestamp = clock w1 \<and> netlog w1 \<noteq> netlog w \<or>
          w1 = w \<and> clock w - timestamp < CACHE_TTL) \<and>
         (clock w2 - timestamp < CACHE_TTL \<longrightarrow>
            getFileTree env ownr repo branch token2 w2 = (Inr fs, w2)) \<and>
         (CACHE_TTL \<le> clock w2 - timestamp \<longrightarrow>
            (case getFileTree env ownr repo branch token2 w2 of
               (result, w') \<Rightarrow>
                 (truthyStr branch \<longrightarrow>
                    treeListingCalls w2 w' = 1 \<and>
                    result = listingResult ownr repo
                               (git_getTree env (netlog w2) octokit ownr repo (the branch))) \<and>
                 (\<not> truthyStr branch \<longrightarrow>
                    (case repos_get env (netlog w2) octokit ownr repo of
                       Inr d \<Rightarrow>
                         treeListingCalls w2 w' = 1 \<and>
                         result = listingResult ownr repo
                                    (git_getTree env (netlog w2 @ [ReposGet octokit ownr repo])
                                       octokit ownr repo (default_branch d))
                     | Inl error \<Rightarrow> treeListingCalls w2 w' = 0 \<and> isl result))))"
proof -
  from getFileTree_success_entry [OF first] obtain timestamp where
    entry: "fileTreeCache w1 (cacheKey ownr repo branch) = Some (fs, timestamp)" and
    stamp: "timestamp = clock w1 \<and> netlog w1 \<noteq> netlog w \<or>
            w1 = w \<and> clock w - timestamp < CACHE_TTL"
    by blast
  from entry kept have "fileTreeCache w2 (cacheKey ownr repo branch) = Some (fs, timestamp)"
    by simp
  note served = getFileTree_cached_entry [OF this, of env token2, folded octokit_def]
  show ?thesis
    unfolding entry option.case prod.case
    by (intro conjI)
       (rule refl, rule stamp, rule served [THEN conjunct1], rule served [THEN conjunct2])
qed

lemma sample_first_call:
  "getFileTree sampleEnv ''o'' ''r'' None None newWorld = (Inr sampleFiles, afterFirstCall)"
  "clock afterFirstCall = 2"
  "fileTreeCache afterFirstCall ''o/r/default'' = Some (sampleFiles, 2)"
  "netlog afterFirstCall = [ReposGet None ''o'' ''r'', GitGetTree None ''o'' ''r'' ''main'']"
  by (simp_all add: afterFirstCall_def getFileTree_def fetchFileTree_def validateRepo_def
      cacheKey_def sampleEnv_def sampleRepoData_def sampleTree_def sampleFiles_def blobItem_def
      isBlob_def toFileEntry_def createOctokit_def perform_def newWorld_def Let_def)

theorem getFileTree_two_calls_witness:
  "fst (getFileTree sampleEnv ''o'' ''r'' None None newWorld) = Inr sampleFiles \<and>
   getFileTree sampleEnv ''o'' ''r'' None None (afterFirstCall\<lparr>clock := 300001\<rparr>) =
     (Inr sampleFiles, afterFirstCall\<lparr>clock := 300001\<rparr>) \<and>
   (case getFileTree sampleEnv ''o'' ''r'' None None (afterFirstCall\<lparr>clock := 300002\<rparr>) of
      (result, w') \<Rightarrow>
        treeListingCalls (afterFirstCall\<lparr>clock := 300002\<rparr>) w' = 1 \<and>
        result = Inr sampleFiles)"
proof -
  have tree: "map toFileEntry (filter isBlob sampleTree) = sampleFiles"
    by (simp add: sampleTree_def sampleFiles_def blobItem_def isBlob_def toFileEntry_def)
  have entry: "fileTreeCache afterFirstCall (cacheKey ''o'' ''r'' None) = Some (sampleFiles, 2)"
    by (simp add: sample_key sample_first_call)
  have young: "clock (afterFirstCall\<lparr>clock := 300001\<rparr>) - 2 < CACHE_TTL"
    and old: "CACHE_TTL \<le> clock (afterFirstCall\<lparr>clock := 300002\<rparr>) - 2"
    by (simp_all add: CACHE_TTL_def)
  have lookup: "repos_get sampleEnv hist None ''o'' ''r'' = Inr sampleRepoData" for hist
    by (simp add: sampleEnv_def)
  have listing: "listingResult ''o'' ''r'' (git_getTree sampleEnv hist None ''o'' ''r'' t) = Inr sampleFiles"
    for hist t
    by (simp add: sampleEnv_def listingResult_def tree)
  have oct: "createOctokit sampleEnv None = None"
    by (simp add: createOctokit_def sampleEnv_def)
  have nb: "\<not> truthyStr None" by simp
  have kept1: "fileTreeCache (afterFirstCall\<lparr>clock := 300001\<rparr>) (cacheKey ''o'' ''r'' None) =
               fileTreeCache afterFirstCall (cacheKey ''o'' ''r'' None)"
    and kept2: "fileTreeCache (afterFirstCall\<lparr>clock := 300002\<rparr>) (cacheKey ''o'' ''r'' None) =
               fileTreeCache afterFirstCall (cacheKey ''o'' ''r'' None)"
    by simp_all
  note t1 = getFileTree_two_calls [OF sample_first_call(1) kept1, of None,
      unfolded entry option.case prod.case]
  note t2 = getFileTree_two_calls [OF sample_first_call(1) kept2, of None,
      unfolded entry option.case prod.case]
  have a: "getFileTree sampleEnv ''o'' ''r'' None None (afterFirstCall\<lparr>clock := 300001\<rparr>) =
     (Inr sampleFiles, afterFirstCall\<lparr>clock := 300001\<rparr>)"
    using t1 [THEN conjunct2, THEN conjunct2, THEN conjunct1, rule_format, OF young] .
  note stale = t2 [THEN conjunct2, THEN conjunct2, THEN conjunct2, rule_format, OF old]
  have b: "case getFileTree sampleEnv ''o'' ''r'' None None (afterFirstCall\<lparr>clock := 300002\<rparr>) of
      (result, w') \<Rightarrow>
        treeListingCalls (afterFirstCall\<lparr>clock := 300002\<rparr>) w' = 1 \<and>
        result = Inr sampleFiles"
  proof (cases "getFileTree sampleEnv ''o'' ''r'' None None (afterFirstCall\<lparr>clock := 300002\<rparr>)")
    case (Pair result w')
    with stale nb have "case repos_get sampleEnv (netlog (afterFirstCall\<lparr>clock := 300002\<rparr>))
                               (createOctokit sampleEnv None) ''o'' ''r'' of
        Inr d \<Rightarrow>
          treeListingCalls (afterFirstCall\<lparr>clock := 300002\<rparr>) w' = 1 \<and>
          result = listingResult ''o'' ''r''
             (git_getTree sampleEnv
                (netlog (afterFirstCall\<lparr>clock := 300002\<rparr>)
                   @ [ReposGet (createOctokit sampleEnv None) ''o'' ''r''])
                (createOctokit sampleEnv None) ''o'' ''r'' (default_branch d))
      | Inl error \<Rightarrow> treeListingCalls (afterFirstCall\<lparr>clock := 300002\<rparr>) w' = 0 \<and> isl result"
      by simp
    then have "treeListingCalls (afterFirstCall\<lparr>clock := 300002\<rparr>) w' = 1 \<and> result = Inr sampleFiles"
      unfolding oct lookup listing by simp
    with Pair show ?thesis by simp
  qed
  from sample_first_call(1) a b show ?thesis by simp
qed

text \<open>
  Claim C6 as stated fails: with the entry one millisecond past its time to live, the
  branch left out and the repository lookup answered with 403, the call issues the
  lookup only, no tree-listing request, and throws.
\<close>

theorem getFileTree_expired_counterexample:
  "fileTreeCache staleWorld (cacheKey ''o'' ''r'' None) = Some (cachedFiles, 0) \<and>
   CACHE_TTL < clock staleWorld - 0 \<and>
   (case getFileTree lookupDownEnv ''o'' ''r'' None None staleWorld of
      (result, w') \<Rightarrow> treeListingCalls staleWorld w' \<noteq> 1 \<and> treeListingCalls staleWorld w' = 0 \<and>
        issued staleWorld w' = [ReposGet None ''o'' ''r''] \<and>
        result = Inl (newError
          ''Failed to get file tree: GitHub API rate limit exceeded. Try again later or add a GITHUB_TOKEN.''))"
  by (simp add: staleWorld_def sample_key CACHE_TTL_def getFileTree_def fetchFileTree_def
      validateRepo_def lookupDownEnv_def sampleEnv_def createOctokit_def perform_def
      treeListingCalls_def issued_def fileTreeError_def newError_def Let_def)

section \<open>Parsing the response of the AI service\<close>

lemma parseIssues_unparsable:
  "JSON_parse env (extractJsonText response) = None \<Longrightarrow>
   parseIssuesFromResponse env now response = []"
  by (simp add: parseIssuesFromResponse_def)

text \<open>
  Claim C10. When the text extracted from the response parses as JSON and the parsed
  value has no \<^verbatim>\<open>issues\<close> property, or has one that is not an array,
  \<open>parseIssuesFromResponse\<close> returns the empty list: the top-level value \<^verbatim>\<open>null\<close>, a
  number, a string, an array, an object without the key, an object whose \<^verbatim>\<open>issues\<close> is
  not an array. The function has no failing outcome.
\<close>

theorem parseIssues_wrong_shape:
  assumes parses: "JSON_parse env (extractJsonText response) = Some parsed"
    and shape: "\<forall>issues. getProp parsed ''issues'' \<noteq> Some (JArr issues)"
  shows "parseIssuesFromResponse env now response = []"
proof (cases "getProp parsed ''issues''")
  case None
  with parses show ?thesis
    by (simp add: parseIssuesFromResponse_def)
next
  case (Some v)
  with shape have "\<forall>issues. v \<noteq> JArr issues" by simp
  with parses Some show ?thesis
    by (cases v) (simp_all add: parseIssuesFromResponse_def)
qed

lemma extract_plain: "extractJsonText ''{}'' = ''{}''"
  by code_simp

lemma extract_null: "extractJsonText ''null'' = ''null''"
  by code_simp

lemma extract_fenced:
  "extractJsonText (fence @ ''json'' @ newline @ ''[]'' @ newline @ fence) = ''[]''"
  by code_simp

theorem parseIssues_wrong_shape_witness:
  "parseIssuesFromResponse sampleEnv 0 ''{}'' = [] \<and>
   parseIssuesFromResponse sampleEnv 0 ''null'' = [] \<and>
   parseIssuesFromResponse sampleEnv 0 (fence @ ''json'' @ newline @ ''[]'' @ newline @ fence) = []"
proof -
  have a: "JSON_parse sampleEnv (extractJsonText ''{}'') = Some (JObj [])"
    unfolding extract_plain by (simp add: sampleEnv_def sampleParse_def)
  have b: "JSON_parse sampleEnv
             (extractJsonText (fence @ ''json'' @ newline @ ''[]'' @ newline @ fence)) = Some (JArr [])"
    unfolding extract_fenced by (simp add: sampleEnv_def sampleParse_def)
  have c: "JSON_parse sampleEnv (extractJsonText ''null'') = Some JNull"
    unfolding extract_null by (simp add: sampleEnv_def sampleParse_def)
  from parseIssues_wrong_shape [OF a, of 0] parseIssues_wrong_shape [OF b, of 0]
    parseIssues_wrong_shape [OF c, of 0]
  show ?thesis by simp
qed

section \<open>Lemmas on the fetch phase\<close>

lemma emitted_append: "written res' = written res @ evs \<Longrightarrow> emitted res res' = evs"
  by (simp add: emitted_def)

lemma applyProgress_report:
  "\<not> writableEnded res \<Longrightarrow>
   \<not> writableEnded (applyProgress (Some (reportProgress prio)) t n ps res) \<and>
   (\<exists>evs. written (applyProgress (Some (reportProgress prio)) t n ps res) = written res @ evs \<and>
          list_all isStatusOrFile evs)"
proof (induction ps arbitrary: n res)
  case Nil
  then show ?case by simp
next
  case (Cons p ps)
  let ?res1 = "reportProgress prio (Suc n) t p res"
  from Cons.prems obtain e1 where e1: "written ?res1 = written res @ e1" "list_all isStatusOrFile e1"
    using reportProgress_written by blast
  have open1: "\<not> writableEnded ?res1" using Cons.prems by simp
  have step: "applyProgress (Some (reportProgress prio)) t n (p # ps) res =
              applyProgress (Some (reportProgress prio)) t (Suc n) ps ?res1"
    by (simp add: applyProgress_def)
  from Cons.IH [OF open1, of "Suc n"] obtain e2 where
    "\<not> writableEnded (applyProgress (Some (reportProgress prio)) t (Suc n) ps ?res1)"
    "written (applyProgress (Some (reportProgress prio)) t (Suc n) ps ?res1) = written ?res1 @ e2"
    "list_all isStatusOrFile e2"
    by blast
  with e1 show ?case unfolding step by auto
qed

lemma getFileTree_log:
  "\<exists>ext. netlog (snd (getFileTree env ownr repo branch token w)) = netlog w @ ext \<and>
         \<not> list_ex isChatRequest ext"
  by (auto simp: getFileTree_def fetchFileTree_def validateRepo_def Let_def
      split: option.splits sum.splits prod.splits if_splits)

lemma getFilesForPriority_log:
  assumes "getFilesForPriority env ownr repo prio maxFiles onP token r w = (result, r', w')"
  shows "\<exists>ext. netlog w' = netlog w @ ext \<and> \<not> list_ex isChatRequest ext"
proof -
  obtain tr w1 where t: "getFileTree env ownr repo None token w = (tr, w1)"
    by (cases "getFileTree env ownr repo None token w")
  from getFileTree_log [of env ownr repo None token w] t obtain e1 where
    e1: "netlog w1 = netlog w @ e1" "\<not> list_ex isChatRequest e1" by auto
  show ?thesis
  proof (cases tr)
    case (Inl e)
    with assms t e1 show ?thesis by (auto simp: getFilesForPriority_def)
  next
    case (Inr allFiles)
    let ?ps = "filterFilesByPriority (minimatch env) (map entryPath allFiles) prio"
    obtain cs r2 w2 where g: "getFilesContents env ownr repo ?ps maxFiles onP token r w1 = (cs, r2, w2)"
      by (cases "getFilesContents env ownr repo ?ps maxFiles onP token r w1")
    from getFilesContents_general [OF g] have
      "netlog w2 = netlog w1 @ map (ReposGetContent (createOctokit env token) ownr repo)
                                 (sliceTo ?ps maxFiles)"
      by simp
    moreover have "\<not> list_ex isChatRequest
        (map (ReposGetContent (createOctokit env token) ownr repo) xs)" for xs
      by (induction xs) simp_all
    moreover from assms t Inr g have "w' = w2"
      by (simp add: getFilesForPriority_def Let_def)
    ultimately show ?thesis using e1 by (auto simp: list_ex_iff)
  qed
qed

lemma getFilesForPriority_res:
  assumes "getFilesForPriority env ownr repo prio maxFiles onP token r w = (result, r', w')"
  shows "\<exists>t ps. r' = applyProgress onP t 0 ps r"
proof -
  obtain tr w1 where t: "getFileTree env ownr repo None token w = (tr, w1)"
    by (cases "getFileTree env ownr repo None token w")
  show ?thesis
  proof (cases tr)
    case (Inl e)
    with assms t have "r' = r" by (auto simp: getFilesForPriority_def)
    then have "r' = applyProgress onP 0 0 [] r" by simp
    then show ?thesis by blast
  next
    case (Inr allFiles)
    let ?ps = "filterFilesByPriority (minimatch env) (map entryPath allFiles) prio"
    obtain cs r2 w2 where g: "getFilesContents env ownr repo ?ps maxFiles onP token r w1 = (cs, r2, w2)"
      by (cases "getFilesContents env ownr repo ?ps maxFiles onP token r w1")
    from assms t Inr g have "r' = r2"
      by (simp add: getFilesForPriority_def Let_def)
    with getFilesContents_general [OF g] show ?thesis by blast
  qed
qed

lemma getFilesForPriority_progress:
  assumes "getFilesForPriority env ownr repo prio maxFiles (Some (reportProgress p)) token res w
             = (result, res', w')"
    and "\<not> writableEnded res"
  shows "\<not> writableEnded res' \<and>
         (\<exists>evs. written res' = written res @ evs \<and> list_all isStatusOrFile evs)"
  using getFilesForPriority_res [OF assms(1)] applyProgress_report [OF assms(2)] by auto

lemma getFilesForPriority_silent:
  assumes "getFilesForPriority env ownr repo prio maxFiles None token res w = (result, res', w')"
  shows "res' = res"
  using getFilesForPriority_res [OF assms] by (auto simp: applyProgress_def)

section \<open>Lemmas on the analysis phase\<close>

lemma foldl_consume_chunks [simp]:
  "foldl consumeEvent (a, b, c, d) (map ChunkEvent cs) = (a, b, c, d)"
  by (induction cs) simp_all

lemma streamAnalysis_cases:
  fixes env fs apiKey prio w
  defines "reply \<equiv> chat_completions env (netlog w) apiKey (PROMPT env prio) (buildUserMessage fs)"
  defines "w' \<equiv> perform env (ChatCompletions apiKey (PROMPT env prio) (buildUserMessage fs)) w"
  shows "(\<exists>e. streamAnalysis env fs apiKey prio w = (([], Some e), w')) \<or>
         (\<exists>rds e. streamAnalysis env fs apiKey prio w =
                    ((map ChunkEvent (streamedContents rds), Some e), w')) \<or>
         (\<exists>st etext rds. reply = HttpResponse st etext (Some (StreamBody rds None)) \<and>
            200 \<le> st \<and> st \<le> 299 \<and>
            streamAnalysis env fs apiKey prio w =
              ((map ChunkEvent (streamedContents rds)
                  @ [CompleteResult
                       (parseIssuesFromResponse env (clock w') (concat (streamedContents rds)))
                       (estimateTokens (PROMPT env prio) + estimateTokens (buildUserMessage fs))
                       (estimateTokens (concat (streamedContents rds)))
                       (calculateCost
                          (of_nat (estimateTokens (PROMPT env prio) + estimateTokens (buildUserMessage fs)))
                          (of_nat (estimateTokens (concat (streamedContents rds)))))],
                None), w'))"
proof (cases reply)
  case (FetchFailed msg)
  then show ?thesis
    unfolding reply_def w'_def by (simp add: streamAnalysis_def Let_def)
next
  case (HttpResponse st etext body)
  show ?thesis
  proof (cases "200 \<le> st \<and> st \<le> 299")
    case False
    with HttpResponse show ?thesis
      unfolding reply_def w'_def by (simp add: streamAnalysis_def Let_def)
  next
    case True
    show ?thesis
    proof (cases body)
      case None
      with HttpResponse True show ?thesis
        unfolding reply_def w'_def by (simp add: streamAnalysis_def Let_def)
    next
      case (Some b)
      obtain rds failure where b: "b = StreamBody rds failure" by (cases b)
      show ?thesis
      proof (cases failure)
        case None
        with HttpResponse True Some b show ?thesis
          unfolding reply_def w'_def by (simp add: streamAnalysis_def Let_def)
      next
        case (Some msg)
        with HttpResponse True \<open>body = Some b\<close> b
        have "streamAnalysis env fs apiKey prio w =
                ((map ChunkEvent (streamedContents rds), Some (newError msg)), w')"
          unfolding reply_def w'_def by (simp add: streamAnalysis_def Let_def)
        then show ?thesis by blast
      qed
    qed
  qed
qed

lemma streamAnalysis_shape:
  assumes "streamAnalysis env fs apiKey prio w = ((events, thrown), w')"
  shows "\<exists>chunks. (thrown \<noteq> None \<and> events = map ChunkEvent chunks) \<or>
           (thrown = None \<and>
            (\<exists>issues i n c. events = map ChunkEvent chunks @ [CompleteResult issues i n c]))"
  using streamAnalysis_cases [of env fs apiKey prio w] assms
  by (elim disjE exE conjE) (simp, blast, simp, blast, simp, blast)

lemma consume_stream:
  assumes "streamAnalysis env fs apiKey prio w = ((events, thrown), w')"
    and "\<not> writableEnded res"
    and "foldl consumeEvent (0, 0, [], res) events = (tin, tout, allIssues, res')"
  shows "\<not> writableEnded res' \<and> written res' = written res @ map IssueEvent allIssues"
proof -
  from streamAnalysis_shape [OF assms(1)] obtain chunks where
    "(thrown \<noteq> None \<and> events = map ChunkEvent chunks) \<or>
     (thrown = None \<and>
      (\<exists>issues i n c. events = map ChunkEvent chunks @ [CompleteResult issues i n c]))"
    by blast
  then show ?thesis
  proof
    assume "thrown \<noteq> None \<and> events = map ChunkEvent chunks"
    with assms(2,3) show ?thesis by simp
  next
    assume "thrown = None \<and>
      (\<exists>issues i n c. events = map ChunkEvent chunks @ [CompleteResult issues i n c])"
    then obtain issues i n c where "events = map ChunkEvent chunks @ [CompleteResult issues i n c]"
      by blast
    with assms(2,3) show ?thesis by auto
  qed
qed

lemma body_events:
  assumes run: "analyzeRepositoryBody env res ownr repo apiKey prio githubToken w = (result, res', w')"
    and op: "\<not> writableEnded res"
  shows "\<exists>sf issues.
           list_all isStatusOrFile sf \<and>
           (case result of
              Inl error \<Rightarrow> \<not> writableEnded res' \<and> written res' = written res @ sf @ map IssueEvent issues
            | Inr u \<Rightarrow> \<exists>d. written res' = written res @ sf @ map IssueEvent issues @ [CompleteEvent d])"
proof -
  let ?res1 = "sendStatus res (''Scanning '' @ getPriorityName prio @ '' files...'') 0 0 None"
  have res1: "\<not> writableEnded ?res1"
    "written ?res1 = written res @ [StatusEvent (''Scanning '' @ getPriorityName prio @ '' files...'') 0 0 None]"
    using op by (simp_all add: sendStatus_def)
  obtain fp res2 w1 where
    fp: "getFilesForPriority env ownr repo prio (MAX_FILES_PER_PRIORITY env)
           (Some (reportProgress prio)) githubToken ?res1 w = (fp, res2, w1)"
    by (cases "getFilesForPriority env ownr repo prio (MAX_FILES_PER_PRIORITY env)
           (Some (reportProgress prio)) githubToken ?res1 w") auto
  from getFilesForPriority_progress [OF fp res1(1)] obtain e2 where
    res2: "\<not> writableEnded res2" "written res2 = written ?res1 @ e2" "list_all isStatusOrFile e2"
    by blast
  show ?thesis
  proof (cases fp)
    case (Inl error)
    with run fp have "result = Inl error" "res' = res2"
      by (simp_all add: analyzeRepositoryBody_def Let_def)
    with res1 res2 show ?thesis
      by (intro exI [of _ "StatusEvent (''Scanning '' @ getPriorityName prio @ '' files...'') 0 0 None # e2"]
                exI [of _ "[]"]) simp
  next
    case (Inr pair)
    then obtain fetched tm where pair: "fp = Inr (fetched, tm)" by (cases pair) auto
    show ?thesis
    proof (cases "length fetched = 0")
      case True
      let ?d = "\<lparr>priority = prio, filesScanned = 0, issuesFound = 0, tokensUsed = 0,
                 cost = 0, nextPriorityEstimate = None\<rparr>"
      let ?s = "StatusEvent (''No files found for Priority '' @ showNat (priorityNumber prio)) 0 0 None"
      from run fp pair True have r: "result = Inr ()"
        "res' = endResponse (sendComplete (sendStatus res2
                  (''No files found for Priority '' @ showNat (priorityNumber prio)) 0 0 None) ?d)"
        by (simp_all add: analyzeRepositoryBody_def Let_def)
      let ?sf0 = "StatusEvent (''Scanning '' @ getPriorityName prio @ '' files...'') 0 0 None # e2 @ [?s]"
      have wr: "written res' = written res @ ?sf0 @ map IssueEvent [] @ [CompleteEvent ?d]"
        using res1 res2 by (simp add: r send_defs)
      have sf0: "list_all isStatusOrFile ?sf0"
        using res2 by simp
      from r(1) wr have "case result of
            Inl error \<Rightarrow> \<not> writableEnded res' \<and> written res' = written res @ ?sf0 @ map IssueEvent []
          | Inr u \<Rightarrow> \<exists>d. written res' = written res @ ?sf0 @ map IssueEvent [] @ [CompleteEvent d]"
        by auto
      with sf0 show ?thesis by blast
    next
      case False
      let ?res3 = "foldl (\<lambda>r f. sendFileEvent r (path f) prio FileDone) res2 fetched"
      let ?s4 = "StatusEvent (''Analyzing '' @ showNat (length fetched) @ '' files with AI...'')
                   (length fetched) (length fetched) None"
      let ?res4 = "sendSSE ?res3 ?s4"
      have res4: "\<not> writableEnded ?res4"
        "written ?res4 = written res2 @ map (\<lambda>f. FileEvent (path f) prio FileDone) fetched @ [?s4]"
        using res2 by simp_all
      obtain events thrown w2 where sa: "streamAnalysis env fetched apiKey prio w1 = ((events, thrown), w2)"
        by (cases "streamAnalysis env fetched apiKey prio w1") auto
      obtain tin tout allIssues res5 where
        fold: "foldl consumeEvent (0, 0, [], ?res4) events = (tin, tout, allIssues, res5)"
        by (cases "foldl consumeEvent (0, 0, [], ?res4) events") auto
      from consume_stream [OF sa res4(1) fold] have
        res5: "\<not> writableEnded res5" "written res5 = written ?res4 @ map IssueEvent allIssues"
        by simp_all
      let ?sf = "StatusEvent (''Scanning '' @ getPriorityName prio @ '' files...'') 0 0 None # e2
                 @ map (\<lambda>f. FileEvent (path f) prio FileDone) fetched @ [?s4]"
      have "list_all isStatusOrFile (map (\<lambda>f. FileEvent (path f) prio FileDone) xs)"
        for xs :: "FileContent list"
        by (induction xs) simp_all
      then have sf: "list_all isStatusOrFile ?sf"
        using res2(3) by simp
      have w5: "written res5 = written res @ ?sf @ map IssueEvent allIssues"
        using res5 res4 res2 res1 by simp
      obtain est w3 where est: "estimateNextPriority env ownr repo prio githubToken tin
                                  (length fetched) res5 w2 = (est, w3)"
        by (cases "estimateNextPriority env ownr repo prio githubToken tin (length fetched) res5 w2")
      from run fp pair False sa fold est
      have cases: "(result, res') =
          (case thrown of
             Some error \<Rightarrow> (Inl error, res5)
           | None \<Rightarrow>
               (case est of
                  Inl error \<Rightarrow> (Inl error, res5)
                | Inr estimate \<Rightarrow>
                    (Inr (),
                     sendComplete res5
                       \<lparr>priority = prio, filesScanned = length fetched,
                        issuesFound = length allIssues, tokensUsed = tin + tout,
                        cost = calculateCost (of_nat tin) (of_nat tout),
                        nextPriorityEstimate = estimate\<rparr>)))"
        by (simp add: analyzeRepositoryBody_def Let_def sendStatus_def split: option.splits sum.splits)
      have "case result of
              Inl error \<Rightarrow> \<not> writableEnded res' \<and>
                written res' = written res @ ?sf @ map IssueEvent allIssues
            | Inr u \<Rightarrow> \<exists>d. written res' = written res @ ?sf @ map IssueEvent allIssues @ [CompleteEvent d]"
      proof (cases "result")
        case (Inl error)
        with cases have "res' = res5" by (auto split: option.splits sum.splits)
        with Inl res5(1) w5 show ?thesis by simp
      next
        case (Inr u)
        with cases obtain d where "res' = sendComplete res5 d"
          by (auto split: option.splits sum.splits)
        with res5(1) w5 have "written res' = written res @ ?sf @ map IssueEvent allIssues @ [CompleteEvent d]"
          by (simp add: sendComplete_def)
        with Inr show ?thesis by auto
      qed
      with sf show ?thesis by blast
    qed
  qed
qed

section \<open>The order of the events of a run\<close>

lemma reportFailure_event:
  "\<not> writableEnded res \<Longrightarrow>
   \<exists>fin. isError fin \<and> written (reportFailure res error) = written res @ [fin]"
  by (simp add: reportFailure_def sendError_def)

lemma sorted_phases:
  assumes "list_all isStatusOrFile sf" and "isComplete fin \<or> isError fin"
  shows "sorted (map eventPhase (sf @ map IssueEvent issues @ [fin]))"
proof -
  have a: "\<forall>x \<in> set (map eventPhase sf). x = 0"
    using assms(1) by (induction sf) (auto elim: isStatusOrFile.elims)
  have b: "\<forall>x \<in> set (map eventPhase (map IssueEvent issues)). x = 1"
    by (induction issues) auto
  have c: "eventPhase fin = 2"
    using assms(2) by (cases fin) auto
  have s1: "sorted (map eventPhase sf)"
    using a by (induction sf) auto
  have s2: "sorted (map eventPhase (map IssueEvent issues))"
    using b by (induction issues) auto
  show ?thesis
    using a b c s1 s2 by (auto simp: sorted_append)
qed

text \<open>
  Claim C8. A call of \<open>analyzeRepository\<close> is the run of one tier. On a response that is
  still open, the events it writes are, in this order: status and file events, then issue
  events, then exactly one terminal event, which is the tier's complete event or an error
  event. So every status and file event comes before every issue event, every issue event
  comes before the complete event, and no status or file event follows an issue event: the
  phases of the events never decrease along the stream.
\<close>

theorem analyzeRepository_event_order:
  assumes op: "\<not> writableEnded res"
  shows "case analyzeRepository env res repoUrl apiKey prio githubToken w of
           (res', w') \<Rightarrow>
             (\<exists>sf issues fin.
                emitted res res' = sf @ map IssueEvent issues @ [fin] \<and>
                list_all isStatusOrFile sf \<and> (isComplete fin \<or> isError fin)) \<and>
             sorted (map eventPhase (emitted res res'))"
proof -
  obtain res' w' where run: "analyzeRepository env res repoUrl apiKey prio githubToken w = (res', w')"
    by (cases "analyzeRepository env res repoUrl apiKey prio githubToken w")
  have "\<exists>sf issues fin.
          written res' = written res @ sf @ map IssueEvent issues @ [fin] \<and>
          list_all isStatusOrFile sf \<and> (isComplete fin \<or> isError fin)"
  proof (cases "parseGitHubUrl repoUrl")
    case None
    with run op have "written res' = written res @ [] @ map IssueEvent []
        @ [ErrorEvent ''Invalid GitHub URL format'' ''INVALID_URL'' False]"
      by (auto simp: analyzeRepository_def sendError_def)
    then show ?thesis by (intro exI conjI) (assumption, simp_all)
  next
    case (Some pair)
    obtain ownr repo where pair: "pair = (ownr, repo)" by (cases pair)
    let ?v = "StatusEvent ''Validating repository...'' 0 0 None"
    let ?res1 = "sendStatus res ''Validating repository...'' 0 0 None"
    have res1: "\<not> writableEnded ?res1" "written ?res1 = written res @ [?v]"
      using op by (simp_all add: sendStatus_def)
    obtain vr w1 where v: "validateRepo env ownr repo githubToken w = (vr, w1)"
      by (cases "validateRepo env ownr repo githubToken w")
    show ?thesis
    proof (cases vr)
      case (Inl error)
      with run Some pair v res1 have "written res' = written res @ [?v] @ map IssueEvent []
          @ [ErrorEvent (errMessage error) ''REPO_NOT_FOUND'' False]"
        by (auto simp: analyzeRepository_def sendError_def Let_def)
      then show ?thesis by (intro exI conjI) (assumption, simp_all)
    next
      case (Inr repoInfo)
      show ?thesis
      proof (cases "isPrivate repoInfo \<and> \<not> truthyStr githubToken")
        case True
        with run Some pair v Inr res1 have "written res' = written res @ [?v] @ map IssueEvent []
            @ [ErrorEvent ''Private repositories require login'' ''PRIVATE_REPO'' False]"
          by (auto simp: analyzeRepository_def sendError_def Let_def)
        then show ?thesis by (intro exI conjI) (assumption, simp_all)
      next
        case False
        obtain result res2 w2 where
          body: "analyzeRepositoryBody env ?res1 ownr repo apiKey prio githubToken w1 = (result, res2, w2)"
          by (cases "analyzeRepositoryBody env ?res1 ownr repo apiKey prio githubToken w1") auto
        from body_events [OF body res1(1)] obtain sf issues where
          sf: "list_all isStatusOrFile sf" and
          cs: "case result of
                 Inl error \<Rightarrow> \<not> writableEnded res2 \<and> written res2 = written ?res1 @ sf @ map IssueEvent issues
               | Inr u \<Rightarrow> \<exists>d. written res2 = written ?res1 @ sf @ map IssueEvent issues @ [CompleteEvent d]"
          by blast
        from run Some pair v Inr False body have res':
          "res' = (case result of Inr u \<Rightarrow> endResponse res2
                   | Inl error \<Rightarrow> endResponse (reportFailure res2 error))"
          by (auto simp: analyzeRepository_def Let_def split: sum.splits)
        have "\<exists>fin. (isComplete fin \<or> isError fin) \<and>
                written res' = written res @ (?v # sf) @ map IssueEvent issues @ [fin]"
        proof (cases result)
          case (Inl error)
          with cs have o2: "\<not> writableEnded res2"
            and w2: "written res2 = written ?res1 @ sf @ map IssueEvent issues" by simp_all
          from reportFailure_event [OF o2, of error] obtain fin where
            "isError fin" "written (reportFailure res2 error) = written res2 @ [fin]" by blast
          with Inl res' w2 res1 show ?thesis by auto
        next
          case (Inr u)
          with cs obtain d where "written res2 = written ?res1 @ sf @ map IssueEvent issues @ [CompleteEvent d]"
            by auto
          with Inr res' res1 have "written res' = written res @ (?v # sf) @ map IssueEvent issues @ [CompleteEvent d]"
            by simp
          then show ?thesis by (intro exI [of _ "CompleteEvent d"]) simp
        qed
        then obtain fin where "isComplete fin \<or> isError fin"
          "written res' = written res @ (?v # sf) @ map IssueEvent issues @ [fin]" by blast
        moreover have "list_all isStatusOrFile (?v # sf)" using sf by simp
        ultimately show ?thesis by blast
      qed
    qed
  qed
  then obtain sf issues fin where
    d: "written res' = written res @ sf @ map IssueEvent issues @ [fin]"
       "list_all isStatusOrFile sf" "isComplete fin \<or> isError fin"
    by blast
  from d(1) have e: "emitted res res' = sf @ map IssueEvent issues @ [fin]"
    by (rule emitted_append)
  from sorted_phases [OF d(2,3), of issues] e d(2,3) run show ?thesis
    by auto
qed

theorem analyzeRepository_event_order_witness:
  "case analyzeRepository oneIssueEnv newResponse ''https://github.com/o/r'' ''key'' P1 None newWorld of
     (res', w') \<Rightarrow>
       (\<exists>sf issues fin.
          emitted newResponse res' = sf @ map IssueEvent issues @ [fin] \<and>
          list_all isStatusOrFile sf \<and> (isComplete fin \<or> isError fin)) \<and>
       sorted (map eventPhase (emitted newResponse res'))"
proof -
  have op: "\<not> writableEnded newResponse"
    by (simp add: newResponse_def)
  from analyzeRepository_event_order [OF op, of oneIssueEnv "''https://github.com/o/r''" "''key''"
      P1 None newWorld]
  show ?thesis .
qed

section \<open>A fetch phase without files\<close>

lemma fetchPhase_Some:
  assumes "fetchPhase env res repoUrl prio githubToken w = Some fp"
  obtains ownr repo and repoInfo :: RepoInfo and w0 where
    "parseGitHubUrl repoUrl = Some (ownr, repo)"
    "validateRepo env ownr repo githubToken w = (Inr repoInfo, w0)"
    "\<not> (isPrivate repoInfo \<and> \<not> truthyStr githubToken)"
    "getFilesForPriority env ownr repo prio (MAX_FILES_PER_PRIORITY env)
       (Some (reportProgress prio)) githubToken
       (sendStatus (sendStatus res ''Validating repository...'' 0 0 None)
          (''Scanning '' @ getPriorityName prio @ '' files...'') 0 0 None) w0 = fp"
  using assms
  by (auto simp: fetchPhase_def split: option.splits prod.splits sum.splits if_splits)

lemma fetchPhase_events:
  assumes fp: "fetchPhase env res repoUrl prio githubToken w = Some (result, res2, w1)"
    and op: "\<not> writableEnded res"
  shows "\<not> writableEnded res2 \<and>
         (\<exists>sf. written res2 = written res @ sf \<and> list_all isStatusOrFile sf)"
proof -
  from fp obtain ownr repo and repoInfo :: RepoInfo and w0 where
    g: "getFilesForPriority env ownr repo prio (MAX_FILES_PER_PRIORITY env)
       (Some (reportProgress prio)) githubToken
       (sendStatus (sendStatus res ''Validating repository...'' 0 0 None)
          (''Scanning '' @ getPriorityName prio @ '' files...'') 0 0 None) w0 = (result, res2, w1)"
    by (rule fetchPhase_Some)
  let ?res1 = "sendStatus (sendStatus res ''Validating repository...'' 0 0 None)
          (''Scanning '' @ getPriorityName prio @ '' files...'') 0 0 None"
  have o1: "\<not> writableEnded ?res1" using op by (simp add: sendStatus_def)
  have w1: "written ?res1 = written res @ [StatusEvent ''Validating repository...'' 0 0 None,
      StatusEvent (''Scanning '' @ getPriorityName prio @ '' files...'') 0 0 None]"
    using op by (simp add: sendStatus_def)
  from getFilesForPriority_progress [OF g o1] obtain evs where
    "\<not> writableEnded res2" "written res2 = written ?res1 @ evs" "list_all isStatusOrFile evs"
    by blast
  with w1 show ?thesis by auto
qed

lemma fetchPhase_log:
  assumes fp: "fetchPhase env res repoUrl prio githubToken w = Some (result, res2, w1)"
  shows "\<exists>ext. netlog w1 = netlog w @ ext \<and> \<not> list_ex isChatRequest ext"
proof -
  from fp obtain ownr repo and repoInfo :: RepoInfo and w0 where
    v: "validateRepo env ownr repo githubToken w = (Inr repoInfo, w0)" and
    g: "getFilesForPriority env ownr repo prio (MAX_FILES_PER_PRIORITY env)
       (Some (reportProgress prio)) githubToken
       (sendStatus (sendStatus res ''Validating repository...'' 0 0 None)
          (''Scanning '' @ getPriorityName prio @ '' files...'') 0 0 None) w0 = (result, res2, w1)"
    by (rule fetchPhase_Some)
  from v have "netlog w0 = netlog w @ [ReposGet (createOctokit env githubToken) ownr repo]"
    using validateRepo_world [of env ownr repo githubToken w] by simp
  moreover from getFilesForPriority_log [OF g] obtain e2 where
    "netlog w1 = netlog w0 @ e2" "\<not> list_ex isChatRequest e2" by blast
  ultimately show ?thesis by (auto simp: list_ex_iff)
qed

text \<open>
  Claim C4. Take a run that reaches its fetch phase (the URL parses, the repository is
  validated and is not a private one without a token) and whose fetch phase returns no
  file. On a response that is still open the run writes status and file events and then,
  last, one complete event for its priority with \<open>filesScanned = 0\<close>,
  \<open>issuesFound = 0\<close>, \<open>tokensUsed = 0\<close>, \<open>cost = 0\<close> and no estimate. The world at
  the end of the run is the world at the end of the fetch phase, and no request of the
  whole run goes to the AI service: \<open>streamAnalysis\<close>, which always issues one, is not
  called.
\<close>

theorem zero_files_complete_without_ai:
  assumes fetch: "fetchPhase env res repoUrl prio githubToken w = Some fp"
    and none: "fst fp = Inr ([], totalMatching)"
    and op: "\<not> writableEnded res"
  shows "case analyzeRepository env res repoUrl apiKey prio githubToken w of
           (res', w') \<Rightarrow>
             (\<exists>sf. emitted res res' =
                     sf @ [CompleteEvent \<lparr>priority = prio, filesScanned = 0, issuesFound = 0,
                                           tokensUsed = 0, cost = 0, nextPriorityEstimate = None\<rparr>] \<and>
                   list_all isStatusOrFile sf) \<and>
             w' = snd (snd fp) \<and>
             \<not> list_ex isChatRequest (issued w w')"
proof -
  obtain res2 w1 where fp: "fp = (Inr ([], totalMatching), res2, w1)"
    using none by (cases fp) auto
  from fetch obtain ownr repo and repoInfo :: RepoInfo and w0 where
    url: "parseGitHubUrl repoUrl = Some (ownr, repo)" and
    v: "validateRepo env ownr repo githubToken w = (Inr repoInfo, w0)" and
    pub: "\<not> (isPrivate repoInfo \<and> \<not> truthyStr githubToken)" and
    g: "getFilesForPriority env ownr repo prio (MAX_FILES_PER_PRIORITY env)
       (Some (reportProgress prio)) githubToken
       (sendStatus (sendStatus res ''Validating repository...'' 0 0 None)
          (''Scanning '' @ getPriorityName prio @ '' files...'') 0 0 None) w0 = fp"
    by (rule fetchPhase_Some)
  let ?d = "\<lparr>priority = prio, filesScanned = 0, issuesFound = 0,
             tokensUsed = 0, cost = 0, nextPriorityEstimate = None\<rparr>"
  let ?s = "StatusEvent (''No files found for Priority '' @ showNat (priorityNumber prio)) 0 0 None"
  have run: "analyzeRepository env res repoUrl apiKey prio githubToken w =
      (endResponse (endResponse (sendComplete (sendStatus res2
          (''No files found for Priority '' @ showNat (priorityNumber prio)) 0 0 None) ?d)), w1)"
    using url v pub g fp
    by (auto simp: analyzeRepository_def analyzeRepositoryBody_def Let_def)
  from fetchPhase_events [OF fetch [unfolded fp] op] obtain sf where
    o2: "\<not> writableEnded res2" and w2: "written res2 = written res @ sf"
    and sf: "list_all isStatusOrFile sf" by blast
  have "written (endResponse (endResponse (sendComplete (sendStatus res2
          (''No files found for Priority '' @ showNat (priorityNumber prio)) 0 0 None) ?d)))
        = written res @ (sf @ [?s]) @ [CompleteEvent ?d]"
    using o2 w2 by (simp add: send_defs)
  then have e: "emitted res (endResponse (endResponse (sendComplete (sendStatus res2
          (''No files found for Priority '' @ showNat (priorityNumber prio)) 0 0 None) ?d)))
        = (sf @ [?s]) @ [CompleteEvent ?d]"
    by (rule emitted_append)
  have sf': "list_all isStatusOrFile (sf @ [?s])" using sf by simp
  from fetchPhase_log [OF fetch [unfolded fp]] obtain ext where
    "netlog w1 = netlog w @ ext" "\<not> list_ex isChatRequest ext" by blast
  then have quiet: "\<not> list_ex isChatRequest (issued w w1)"
    by (simp add: issued_append)
  from e sf' quiet show ?thesis
    unfolding run fp by (auto simp del: append_assoc)
qed

lemma sample_fetch_P3:
  "case fetchPhase sampleEnv newResponse ''https://github.com/o/r'' P3 None newWorld of
     None \<Rightarrow> False
   | Some fp \<Rightarrow> fst fp = Inr ([], 0)"
  by code_simp

theorem zero_files_complete_without_ai_witness:
  "case analyzeRepository sampleEnv newResponse ''https://github.com/o/r'' ''key'' P3 None newWorld of
     (res', w') \<Rightarrow>
       (\<exists>sf. emitted newResponse res' =
               sf @ [CompleteEvent \<lparr>priority = P3, filesScanned = 0, issuesFound = 0,
                                     tokensUsed = 0, cost = 0, nextPriorityEstimate = None\<rparr>] \<and>
             list_all isStatusOrFile sf) \<and>
       \<not> list_ex isChatRequest (issued newWorld w')"
proof -
  from sample_fetch_P3 obtain fp where
    fp: "fetchPhase sampleEnv newResponse ''https://github.com/o/r'' P3 None newWorld = Some fp"
    and none: "fst fp = Inr ([], 0)"
    by (cases "fetchPhase sampleEnv newResponse ''https://github.com/o/r'' P3 None newWorld") simp_all
  have op: "\<not> writableEnded newResponse"
    by (simp add: newResponse_def)
  from zero_files_complete_without_ai [OF fp none op, of "''key''"] show ?thesis
    by (cases "analyzeRepository sampleEnv newResponse ''https://github.com/o/r'' ''key'' P3 None newWorld")
       simp
qed

section \<open>Rate limits and the retryable flag\<close>

lemma sample_url: "parseGitHubUrl ''https://github.com/o/r'' = Some (''o'', ''r'')"
  by code_simp

lemma tree_rate_limit_message:
  "\<not> includesStr
       ''Failed to get file tree: GitHub API rate limit exceeded. Try again later or add a GITHUB_TOKEN.''
       ''API key''"
  "includesStr
       ''Failed to get file tree: GitHub API rate limit exceeded. Try again later or add a GITHUB_TOKEN.''
       ''rate limit''"
  by code_simp+

text \<open>
  Claim C3 fails on the code. The hosting provider answers the repository lookup with
  403, which \<open>validateRepo\<close> reports as its rate limit. When that happens at the
  validation step of a run, the run ends with an error event whose code is
  \<^verbatim>\<open>REPO_NOT_FOUND\<close> and whose \<open>retryable\<close> flag is false. When the same answer comes
  later in the run, at the lookup of the default branch for the file tree, the
  \<^verbatim>\<open>catch\<close> block finds \<^verbatim>\<open>rate limit\<close> in the message and the error event is
  \<^verbatim>\<open>RATE_LIMITED\<close> with \<open>retryable\<close> true.
\<close>

theorem rate_limit_at_validation_not_retryable:
  "written (fst (analyzeRepository lookupDownEnv newResponse ''https://github.com/o/r'' ''key''
                   P1 None newWorld)) =
     [StatusEvent ''Validating repository...'' 0 0 None,
      ErrorEvent ''GitHub API rate limit exceeded. Try again later or add a GITHUB_TOKEN.''
        ''REPO_NOT_FOUND'' False] \<and>
   written (fst (analyzeRepository flakyEnv newResponse ''https://github.com/o/r'' ''key''
                   P1 None newWorld)) =
     [StatusEvent ''Validating repository...'' 0 0 None,
      StatusEvent ''Scanning Security & Secrets files...'' 0 0 None,
      ErrorEvent
        ''Failed to get file tree: GitHub API rate limit exceeded. Try again later or add a GITHUB_TOKEN.''
        ''RATE_LIMITED'' True]"
proof -
  have first: "written (fst (analyzeRepository lookupDownEnv newResponse ''https://github.com/o/r''
                   ''key'' P1 None newWorld)) =
     [StatusEvent ''Validating repository...'' 0 0 None,
      ErrorEvent ''GitHub API rate limit exceeded. Try again later or add a GITHUB_TOKEN.''
        ''REPO_NOT_FOUND'' False]"
    by (simp add: analyzeRepository_def sample_url validateRepo_def lookupDownEnv_def sampleEnv_def
        createOctokit_def perform_def newError_def newResponse_def newWorld_def send_defs
        sendSSE_def endResponse_def Let_def)
  have env: "repos_get flakyEnv [] None ''o'' ''r'' = Inr sampleRepoData"
    "repos_get flakyEnv [ReposGet None ''o'' ''r''] None ''o'' ''r'' = Inl (JsError (Some 403) ''rate limit'')"
    "MAX_FILES_PER_PRIORITY flakyEnv = 20" "GITHUB_TOKEN flakyEnv = None"
    "elapsed flakyEnv hist = 1" for hist
    by (simp_all add: flakyEnv_def sampleEnv_def)
  have tree: "getFilesForPriority flakyEnv ''o'' ''r'' P1 20 (Some (reportProgress P1)) None res
        \<lparr>clock = 1, fileTreeCache = Map.empty, netlog = [ReposGet None ''o'' ''r'']\<rparr> =
      (Inl (newError
         ''Failed to get file tree: GitHub API rate limit exceeded. Try again later or add a GITHUB_TOKEN.''),
       res,
       \<lparr>clock = 2, fileTreeCache = Map.empty,
        netlog = [ReposGet None ''o'' ''r'', ReposGet None ''o'' ''r'']\<rparr>)" for res
    by (simp add: getFilesForPriority_def getFileTree_def fetchFileTree_def validateRepo_def
        fileTreeError_def env createOctokit_def perform_def newError_def cacheKey_def Let_def)
  have valid: "validateRepo flakyEnv ''o'' ''r'' None newWorld =
      (Inr \<lparr>owner = ''o'', name = ''r'', fullName = ''o/r'', description = None, stars = 0,
            language = None, lastUpdate = ''2024-01-01T00:00:00Z'', defaultBranch = ''main'',
            isPrivate = False\<rparr>,
       \<lparr>clock = 1, fileTreeCache = Map.empty, netlog = [ReposGet None ''o'' ''r'']\<rparr>)"
    by (simp add: validateRepo_def env createOctokit_def perform_def newWorld_def
        sampleRepoData_def Let_def)
  have second: "written (fst (analyzeRepository flakyEnv newResponse ''https://github.com/o/r''
                   ''key'' P1 None newWorld)) =
     [StatusEvent ''Validating repository...'' 0 0 None,
      StatusEvent ''Scanning Security & Secrets files...'' 0 0 None,
      ErrorEvent
        ''Failed to get file tree: GitHub API rate limit exceeded. Try again later or add a GITHUB_TOKEN.''
        ''RATE_LIMITED'' True]"
    by (simp add: analyzeRepository_def analyzeRepositoryBody_def sample_url valid env tree
        newResponse_def reportFailure_def tree_rate_limit_message newError_def send_defs
        sendSSE_def endResponse_def Let_def del: includesStr.simps)
  from first second show ?thesis by simp
qed

section \<open>The estimate for the next priority\<close>

lemma getFileTree_quiet:
  "\<exists>ext. netlog (snd (getFileTree env ownr repo branch token w)) = netlog w @ ext \<and>
         filter isContentRequest ext = []"
  by (auto simp: getFileTree_def fetchFileTree_def validateRepo_def Let_def
      split: option.splits sum.splits prod.splits if_splits)

lemma content_requests_only [simp]:
  "filter isContentRequest (map (ReposGetContent a ownr repo) ps) = map (ReposGetContent a ownr repo) ps"
  by (induction ps) simp_all

lemma getFilesForPriority_requests:
  assumes tree: "fst (getFileTree env ownr repo None token w) = Inr allFiles"
  shows "filter isContentRequest
           (issued w (snd (snd (getFilesForPriority env ownr repo prio maxFiles onP token r w)))) =
         map (ReposGetContent (createOctokit env token) ownr repo)
           (sliceTo (filterFilesByPriority (minimatch env) (map entryPath allFiles) prio) maxFiles)"
proof -
  obtain tr w1 where t: "getFileTree env ownr repo None token w = (tr, w1)"
    by (cases "getFileTree env ownr repo None token w")
  with tree have tr: "tr = Inr allFiles" by simp
  from getFileTree_quiet [of env ownr repo None token w] t obtain e1 where
    e1: "netlog w1 = netlog w @ e1" "filter isContentRequest e1 = []" by auto
  let ?ps = "filterFilesByPriority (minimatch env) (map entryPath allFiles) prio"
  obtain cs r2 w2 where g: "getFilesContents env ownr repo ?ps maxFiles onP token r w1 = (cs, r2, w2)"
    by (cases "getFilesContents env ownr repo ?ps maxFiles onP token r w1")
  from getFilesContents_general [OF g] have
    l2: "netlog w2 = netlog w1 @ map (ReposGetContent (createOctokit env token) ownr repo)
                                 (sliceTo ?ps maxFiles)"
    by simp
  from t tr g have "snd (snd (getFilesForPriority env ownr repo prio maxFiles onP token r w)) = w2"
    by (simp add: getFilesForPriority_def Let_def)
  with e1 l2 show ?thesis
    by (simp add: issued_def)
qed

lemma estimate_world:
  "snd (estimateNextPriority env ownr repo prio githubToken totalInputTokens n res w) =
     (case nextPriority prio of
        None \<Rightarrow> w
      | Some nextPrio \<Rightarrow>
          snd (snd (getFilesForPriority env ownr repo nextPrio (MAX_FILES_PER_PRIORITY env) None
                      githubToken res w)))"
  by (simp add: estimateNextPriority_def Let_def split: option.splits prod.splits sum.splits)

text \<open>
  Claim C2 fails on the code. Below priority 3 the estimate is computed by a call of
  \<open>getFilesForPriority\<close> for the next priority, and that function fetches contents:
  whenever the file tree is had, computing the estimate issues one content request for
  every path of the tree that falls in the next priority, up to
  \<open>MAX_FILES_PER_PRIORITY\<close>.
\<close>

theorem estimate_fetches_next_priority_contents:
  assumes nxt: "nextPriority prio = Some nextPrio"
    and tree: "fst (getFileTree env ownr repo None githubToken w) = Inr allFiles"
  shows "filter isContentRequest
           (issued w (snd (estimateNextPriority env ownr repo prio githubToken
                             totalInputTokens n res w))) =
         map (ReposGetContent (createOctokit env githubToken) ownr repo)
           (sliceTo (filterFilesByPriority (minimatch env) (map entryPath allFiles) nextPrio)
              (MAX_FILES_PER_PRIORITY env))"
  unfolding estimate_world nxt option.case
  by (rule getFilesForPriority_requests [OF tree])

lemma sample_filter_P2:
  "filterFilesByPriority sampleMatcher
     [''src/auth/login.ts'', ''src/services/orders.ts'', ''assets/logo.png''] P2 =
     [''src/services/orders.ts'']"
  by code_simp

theorem estimate_fetches_next_priority_contents_witness:
  "filter isContentRequest
     (issued afterFirstCall
        (snd (estimateNextPriority sampleEnv ''o'' ''r'' P1 None 100 1 newResponse afterFirstCall))) =
   [ReposGetContent None ''o'' ''r'' ''src/services/orders.ts'']"
proof -
  have nxt: "nextPriority P1 = Some P2" by simp
  have tree: "fst (getFileTree sampleEnv ''o'' ''r'' None None afterFirstCall) = Inr sampleFiles"
    by (simp add: getFileTree_def sample_key sample_first_call CACHE_TTL_def)
  have paths: "map entryPath sampleFiles =
      [''src/auth/login.ts'', ''src/services/orders.ts'', ''assets/logo.png'']"
    by (simp add: sampleFiles_def)
  have env: "minimatch sampleEnv = sampleMatcher" "MAX_FILES_PER_PRIORITY sampleEnv = 20"
    "createOctokit sampleEnv None = None"
    by (simp_all add: sampleEnv_def createOctokit_def)
  from estimate_fetches_next_priority_contents [OF nxt tree, of 100 1 newResponse]
  show ?thesis
    unfolding paths env sample_filter_P2
    by (simp add: sliceTo_def)
qed

end
